theory Spec2Isabelle
  imports Complex_Main "HOL-Library.Sublist"
begin

section \<open>Data model (backend/server.py, lines 42--88)\<close>

text \<open>
  The pydantic models of \<^verbatim>\<open>server.py\<close> become records. Python floats are modelled by
  rationals (every finite float is one; NaN and the infinities are outside the model),
  Python's unbounded \<^verbatim>\<open>int\<close> by \<^typ>\<open>int\<close>, \<^verbatim>\<open>str\<close> by \<^typ>\<open>string\<close>.
\<close>

record Location =
  lat :: rat
  lng :: rat
  address :: string

record PlanRequest =
  req_location :: Location
  budget :: int
  interests :: "string list"
  duration :: string
  group_size :: int

record Venue =
  venue_id :: string
  name :: string
  category :: string
  venue_location :: Location
  price_range :: string
  rating :: rat
  description :: string
  popular_items :: "string list"
  opening_hours :: string
  estimated_duration :: int
  booking_url :: "string option"

record WeatherData =
  temperature :: rat
  weather_description :: string
  feels_like :: rat
  humidity :: int
  weather_main :: string

record ItineraryItem =
  venue :: Venue
  start_time :: string
  end_time :: string
  item_notes :: string

record DayPlan =
  plan_id :: string
  plan_location :: Location
  date :: string
  weather :: WeatherData
  total_budget :: int
  estimated_cost :: int
  itinerary :: "ItineraryItem list"
  created_at :: string

subsection \<open>Venue documents\<close>

text \<open>
  The planner does not receive \<^typ>\<open>Venue\<close> objects but the dictionaries stored in the
  venue collection (\<^verbatim>\<open>venues: List[Dict]\<close>). A key may be missing from such a
  dictionary: the documents written by \<^verbatim>\<open>populate_db.py\<close> have no \<^verbatim>\<open>id\<close>, no
  \<^verbatim>\<open>opening_hours\<close>, no \<^verbatim>\<open>estimated_duration\<close>, no \<^verbatim>\<open>address\<close>, and some have no
  \<^verbatim>\<open>description\<close>. A document is therefore a record of optional fields:
  \<open>None\<close> is a missing key, \<open>Some x\<close> a key holding a value of the type the
  \<^typ>\<open>Venue\<close> model declares for it.
\<close>

record location_doc =
  d_lat :: rat
  d_lng :: rat
  d_address :: "string option"

record venue_doc =
  d_id :: "string option"
  d_name :: "string option"
  d_category :: "string option"
  d_location :: "location_doc option"
  d_price_range :: "string option"
  d_rating :: "rat option"
  d_description :: "string option"
  d_popular_items :: "string list option"
  d_popular_dishes :: "string list option"
  d_opening_hours :: "string option"
  d_estimated_duration :: "int option"
  d_booking_url :: "string option"

subsection \<open>Exceptions\<close>

datatype exn =
    KeyError string
  | TypeError
  | AttributeError
  | ValidationError
  | IndexError
  | OverflowError
  | TransportError
  | TimeoutException
  | HTTPStatusError int
  | JSONDecodeError
  | APIError
  | DatabaseError
  | HTTPException int string

text \<open>
  A computation either raises (\<open>Inl\<close>) or returns (\<open>Inr\<close>); \<open>and_then\<close> runs the
  next statement on the value returned and passes an exception on.
\<close>

definition and_then :: "exn + 'a \<Rightarrow> ('a \<Rightarrow> exn + 'b) \<Rightarrow> exn + 'b" where
  "and_then r f = (case r of Inl e \<Rightarrow> Inl e | Inr x \<Rightarrow> f x)"

text \<open>
  \<^verbatim>\<open>Venue(**venue_data)\<close>: pydantic validation. Every field without a default must be
  present (the nested \<^verbatim>\<open>Location\<close> needs its \<^verbatim>\<open>address\<close>); \<^verbatim>\<open>popular_items\<close>
  defaults to the empty list and \<^verbatim>\<open>booking_url\<close> to \<^verbatim>\<open>None\<close>; keys the model does not
  declare (\<^verbatim>\<open>popular_dishes\<close>) are ignored.
\<close>

definition Location_of_doc :: "location_doc \<Rightarrow> exn + Location" where
  "Location_of_doc l =
     (case d_address l of
        None \<Rightarrow> Inl ValidationError
      | Some a \<Rightarrow> Inr \<lparr>lat = d_lat l, lng = d_lng l, address = a\<rparr>)"

definition Venue_of_doc :: "venue_doc \<Rightarrow> exn + Venue" where
  "Venue_of_doc d =
     (if d_id d = None \<or> d_name d = None \<or> d_category d = None \<or> d_location d = None
         \<or> d_price_range d = None \<or> d_rating d = None \<or> d_description d = None
         \<or> d_opening_hours d = None \<or> d_estimated_duration d = None
      then Inl ValidationError
      else case Location_of_doc (the (d_location d)) of
        Inl e \<Rightarrow> Inl e
      | Inr l \<Rightarrow> Inr
          \<lparr>venue_id = the (d_id d), name = the (d_name d), category = the (d_category d),
           venue_location = l, price_range = the (d_price_range d),
           rating = the (d_rating d), description = the (d_description d),
           popular_items = (case d_popular_items d of None \<Rightarrow> [] | Some ps \<Rightarrow> ps),
           opening_hours = the (d_opening_hours d),
           estimated_duration = the (d_estimated_duration d),
           booking_url = d_booking_url d\<rparr>)"

section \<open>Clock arithmetic (datetime, timedelta, strftime)\<close>

text \<open>
  A \<^verbatim>\<open>datetime\<close> whose seconds are zero is modelled by the number of minutes since
  1900-01-01 00:00, the date \<^verbatim>\<open>strptime("09:00", "%H:%M")\<close> fills in. Python's datetimes
  range from 0001-01-01 00:00 to 9999-12-31 23:59:59.999999; 1900-01-01 is day 693596
  and 9999-12-31 is day 3652059 of the proleptic Gregorian calendar. Adding a
  \<^verbatim>\<open>timedelta\<close> that leaves the range raises \<^verbatim>\<open>OverflowError\<close> (a timedelta too large to
  be built raises the same exception, and would leave the range anyway).
\<close>

definition datetime_min :: int where
  "datetime_min = - (693595 * 1440)"

definition datetime_max :: int where
  "datetime_max = 2958463 * 1440 + 1439"

definition add_minutes :: "int \<Rightarrow> int \<Rightarrow> exn + int" where
  "add_minutes t m =
     (if datetime_min \<le> t + m \<and> t + m \<le> datetime_max then Inr (t + m) else Inl OverflowError)"

definition strptime_0900 :: int where
  "strptime_0900 = 9 * 60"

definition digit_char :: "int \<Rightarrow> char" where
  "digit_char d = ''0123456789'' ! nat d"

definition two_digits :: "int \<Rightarrow> string" where
  "two_digits n = [digit_char (n div 10), digit_char (n mod 10)]"

definition strftime_HM :: "int \<Rightarrow> string" where
  "strftime_HM t = two_digits ((t mod 1440) div 60) @ '':'' @ two_digits (t mod 60)"

text \<open>Reading a wall-clock string \<^verbatim>\<open>HH:MM\<close> back as minutes since midnight.\<close>

definition digit_val :: "char \<Rightarrow> int" where
  "digit_val c = of_char c - 48"

fun minutes_of_day :: "string \<Rightarrow> int" where
  "minutes_of_day [h1, h2, c, m1, m2] =
     (digit_val h1 * 10 + digit_val h2) * 60 + (digit_val m1 * 10 + digit_val m2)"
| "minutes_of_day s = 0"

section \<open>The fallback strategy (AIPlanner.fallback_planning, lines 175--190)\<close>

text \<open>
  \<^verbatim>\<open>sorted(venues, key=lambda x: x['rating'], reverse=True)\<close>. The key function is
  called on every element first, so a document without \<^verbatim>\<open>rating\<close> raises
  \<^verbatim>\<open>KeyError\<close>. With \<^verbatim>\<open>reverse=True\<close> CPython reverses the list, sorts it stably in
  ascending order and reverses the result, which keeps elements of equal key in their
  original order.
\<close>

definition sorted_reverse :: "('a \<Rightarrow> 'k::linorder) \<Rightarrow> 'a list \<Rightarrow> 'a list" where
  "sorted_reverse key xs = rev (sort_key key (rev xs))"

definition sorted_by_rating :: "venue_doc list \<Rightarrow> exn + venue_doc list" where
  "sorted_by_rating venues =
     (if list_ex (\<lambda>x. d_rating x = None) venues then Inl (KeyError ''rating'')
      else Inr (sorted_reverse (\<lambda>x. the (d_rating x)) venues))"

text \<open>
  The loop body, in the order the source evaluates it: the duration is read
  (\<^verbatim>\<open>KeyError\<close>), the end time is computed (\<^verbatim>\<open>OverflowError\<close>), the document is validated
  as a \<^typ>\<open>Venue\<close>, the item is appended, and the clock moves to the end time plus 30
  minutes (\<^verbatim>\<open>OverflowError\<close>, also after the last venue).
\<close>

fun fallback_loop :: "int \<Rightarrow> venue_doc list \<Rightarrow> ItineraryItem list \<Rightarrow> exn + ItineraryItem list" where
  "fallback_loop current_time [] items = Inr items"
| "fallback_loop current_time (venue_data # rest) items =
     (case d_estimated_duration venue_data of
        None \<Rightarrow> Inl (KeyError ''estimated_duration'')
      | Some dur \<Rightarrow>
          (case add_minutes current_time dur of
             Inl e \<Rightarrow> Inl e
           | Inr end_time_obj \<Rightarrow>
               (case Venue_of_doc venue_data of
                  Inl e \<Rightarrow> Inl e
                | Inr v \<Rightarrow>
                    (case add_minutes end_time_obj 30 of
                       Inl e \<Rightarrow> Inl e
                     | Inr next_time \<Rightarrow>
                         fallback_loop next_time rest
                           (items @
                             [\<lparr>venue = v, start_time = strftime_HM current_time,
                               end_time = strftime_HM end_time_obj,
                               item_notes = ''A great choice.''\<rparr>])))))"

definition fallback_planning ::
  "PlanRequest \<Rightarrow> WeatherData \<Rightarrow> venue_doc list \<Rightarrow> exn + ItineraryItem list" where
  "fallback_planning request weather_now venues =
     (case sorted_by_rating venues of
        Inl e \<Rightarrow> Inl e
      | Inr sorted_venues \<Rightarrow> fallback_loop strptime_0900 (take 5 sorted_venues) [])"

section \<open>Parsed JSON and the Python operations applied to it\<close>

text \<open>
  What \<^verbatim>\<open>json.loads\<close> and \<^verbatim>\<open>response.json()\<close> return: \<^verbatim>\<open>None\<close>, a bool, a number, a
  string, a list or a dictionary (kept as an association list in insertion order, with
  distinct keys). The functions below are the Python operations the source applies to
  such values, with the exception each raises on a value of the wrong shape.
\<close>

datatype json =
    JNull
  | JBool bool
  | JNum rat
  | JStr string
  | JArr "json list"
  | JObj "(string \<times> json) list"

text \<open>\<^verbatim>\<open>x.get(k, default)\<close>: only a dictionary has the method.\<close>

fun dict_get :: "json \<Rightarrow> string \<Rightarrow> json \<Rightarrow> exn + json" where
  "dict_get (JObj kvs) k dflt = Inr (case map_of kvs k of None \<Rightarrow> dflt | Some x \<Rightarrow> x)"
| "dict_get x k dflt = Inl AttributeError"

text \<open>\<^verbatim>\<open>x[k]\<close> with a string key \<open>k\<close>.\<close>

fun subscript :: "json \<Rightarrow> string \<Rightarrow> exn + json" where
  "subscript (JObj kvs) k = (case map_of kvs k of None \<Rightarrow> Inl (KeyError k) | Some x \<Rightarrow> Inr x)"
| "subscript x k = Inl TypeError"

text \<open>\<^verbatim>\<open>x[0]\<close>. The keys of a parsed JSON object are strings, so \<open>0\<close> is never one.\<close>

fun subscript0 :: "json \<Rightarrow> exn + json" where
  "subscript0 (JArr []) = Inl IndexError"
| "subscript0 (JArr (x # xs)) = Inr x"
| "subscript0 (JStr []) = Inl IndexError"
| "subscript0 (JStr (c # cs)) = Inr (JStr [c])"
| "subscript0 (JObj kvs) = Inl (KeyError ''0'')"
| "subscript0 x = Inl TypeError"

text \<open>\<^verbatim>\<open>for item in x\<close>: a list yields its elements, a string its characters, a
  dictionary its keys; anything else is not iterable.\<close>

fun py_iter :: "json \<Rightarrow> exn + json list" where
  "py_iter (JArr xs) = Inr xs"
| "py_iter (JStr s) = Inr (map (\<lambda>c. JStr [c]) s)"
| "py_iter (JObj kvs) = Inr (map (\<lambda>kv. JStr (fst kv)) kvs)"
| "py_iter x = Inl TypeError"

subsection \<open>Library behaviour the repository does not fix\<close>

text \<open>
  A string is accepted for a \<^verbatim>\<open>str\<close> field and a number for a \<^verbatim>\<open>float\<close> field, an
  integral number for an \<^verbatim>\<open>int\<close> field. What happens to any other value (a number
  given for a \<^verbatim>\<open>str\<close> field, a numeric string for a \<^verbatim>\<open>float\<close> field, a fractional
  number for an \<^verbatim>\<open>int\<close> field) depends on the installed pydantic version, which the
  repository does not fix: it is a parameter, \<open>None\<close> meaning that validation fails.

  \<^verbatim>\<open>str.lower\<close> follows the Unicode character database of the Python that runs the
  code (it lowers cased letters beyond ASCII too, and may change the length of a
  string). It is a parameter as well, \<open>str_lower\<close>, about which nothing is assumed.
  A Python string is modelled by its UTF-8 bytes, on which the contiguous-substring
  test agrees with the one on code points.
\<close>

record library =
  coerce_str :: "json \<Rightarrow> string option"
  coerce_float :: "json \<Rightarrow> rat option"
  coerce_int :: "json \<Rightarrow> int option"
  str_lower :: "string \<Rightarrow> string"

definition coerced :: "'a option \<Rightarrow> exn + 'a" where
  "coerced r = (case r of None \<Rightarrow> Inl ValidationError | Some x \<Rightarrow> Inr x)"

fun str_field :: "library \<Rightarrow> json \<Rightarrow> exn + string" where
  "str_field lib (JStr s) = Inr s"
| "str_field lib x = coerced (coerce_str lib x)"

fun float_field :: "library \<Rightarrow> json \<Rightarrow> exn + rat" where
  "float_field lib (JNum r) = Inr r"
| "float_field lib x = coerced (coerce_float lib x)"

fun int_field :: "library \<Rightarrow> json \<Rightarrow> exn + int" where
  "int_field lib (JNum r) =
     (if of_int \<lfloor>r\<rfloor> = r then Inr \<lfloor>r\<rfloor> else coerced (coerce_int lib (JNum r)))"
| "int_field lib x = coerced (coerce_int lib x)"

text \<open>\<^verbatim>\<open>x.lower()\<close>: only a string has the method.\<close>

fun json_lower :: "library \<Rightarrow> json \<Rightarrow> exn + string" where
  "json_lower lib (JStr s) = Inr (str_lower lib s)"
| "json_lower lib x = Inl AttributeError"

text \<open>
  On ASCII strings \<^verbatim>\<open>str.lower\<close> is the function below: the letters A--Z move to a--z
  and every other character stays. It stands for \<open>str_lower\<close> on the concrete inputs
  of this theory, which are ASCII.
\<close>

definition ascii_lower_char :: "char \<Rightarrow> char" where
  "ascii_lower_char c =
     (case map_of (zip ''ABCDEFGHIJKLMNOPQRSTUVWXYZ'' ''abcdefghijklmnopqrstuvwxyz'') c of
        Some l \<Rightarrow> l
      | None \<Rightarrow> c)"

definition ascii_lower :: "string \<Rightarrow> string" where
  "ascii_lower s = map ascii_lower_char s"

section \<open>Weather lookup (WeatherService.get_current_weather, lines 120--137)\<close>

text \<open>
  The outcome of \<^verbatim>\<open>client.get(url, params=params, timeout=10)\<close>: the call raises (a
  transport error, a timeout, anything else), or a response arrives with its status
  code and its body, \<open>None\<close> when the body is not JSON (\<^verbatim>\<open>response.json()\<close> raises).
\<close>

datatype http_result =
    Raised exn
  | Responded int "json option"

text \<open>\<^verbatim>\<open>response.raise_for_status()\<close> of httpx raises unless the status is 2xx.\<close>

definition raise_for_status :: "int \<Rightarrow> exn + unit" where
  "raise_for_status status =
     (if 200 \<le> status \<and> status \<le> 299 then Inr () else Inl (HTTPStatusError status))"

definition fallback_weather :: WeatherData where
  "fallback_weather =
     \<lparr>temperature = 22, weather_description = ''partly cloudy'', feels_like = 24,
      humidity = 65, weather_main = ''Clouds''\<rparr>"

definition weather_of_json :: "library \<Rightarrow> json \<Rightarrow> exn + WeatherData" where
  "weather_of_json lib data =
     and_then (subscript data ''main'') (\<lambda>m1.
     and_then (subscript m1 ''temp'') (\<lambda>temp.
     and_then (subscript data ''weather'') (\<lambda>w1.
     and_then (subscript0 w1) (\<lambda>w10.
     and_then (subscript w10 ''description'') (\<lambda>descr.
     and_then (subscript data ''main'') (\<lambda>m2.
     and_then (subscript m2 ''feels_like'') (\<lambda>feels.
     and_then (subscript data ''main'') (\<lambda>m3.
     and_then (subscript m3 ''humidity'') (\<lambda>hum.
     and_then (subscript data ''weather'') (\<lambda>w2.
     and_then (subscript0 w2) (\<lambda>w20.
     and_then (subscript w20 ''main'') (\<lambda>wmain.
     and_then (float_field lib temp) (\<lambda>t.
     and_then (str_field lib descr) (\<lambda>d.
     and_then (float_field lib feels) (\<lambda>f.
     and_then (int_field lib hum) (\<lambda>h.
     and_then (str_field lib wmain) (\<lambda>wm.
       Inr \<lparr>temperature = t, weather_description = d, feels_like = f,
            humidity = h, weather_main = wm\<rparr>)))))))))))))))))"

text \<open>The body of the \<^verbatim>\<open>try\<close> block.\<close>

definition weather_request :: "library \<Rightarrow> http_result \<Rightarrow> exn + WeatherData" where
  "weather_request lib outcome =
     (case outcome of
        Raised e \<Rightarrow> Inl e
      | Responded status body \<Rightarrow>
          (case raise_for_status status of
             Inl e \<Rightarrow> Inl e
           | Inr u \<Rightarrow>
               (case body of
                  None \<Rightarrow> Inl JSONDecodeError
                | Some data \<Rightarrow> weather_of_json lib data)))"

text \<open>\<^verbatim>\<open>except Exception\<close>: every exception of the body is replaced by the fixed snapshot.\<close>

definition get_current_weather :: "library \<Rightarrow> http_result \<Rightarrow> WeatherData" where
  "get_current_weather lib outcome =
     (case weather_request lib outcome of
        Inr w \<Rightarrow> w
      | Inl e \<Rightarrow> fallback_weather)"

section \<open>The generative strategy (AIPlanner.generate_itinerary, lines 141--172)\<close>

text \<open>
  Line 143 formats the first 15 venues; a document without \<^verbatim>\<open>name\<close>, \<^verbatim>\<open>category\<close> or
  \<^verbatim>\<open>description\<close> raises \<^verbatim>\<open>KeyError\<close> there, before the language model is called.
\<close>

definition venue_info_line :: "venue_doc \<Rightarrow> exn + string" where
  "venue_info_line v =
     (case d_name v of
        None \<Rightarrow> Inl (KeyError ''name'')
      | Some n \<Rightarrow>
          (case d_category v of
             None \<Rightarrow> Inl (KeyError ''category'')
           | Some c \<Rightarrow>
               (case d_description v of
                  None \<Rightarrow> Inl (KeyError ''description'')
                | Some d \<Rightarrow> Inr (''- '' @ n @ '' ('' @ c @ ''): '' @ d))))"

fun venue_info :: "venue_doc list \<Rightarrow> exn + string list" where
  "venue_info [] = Inr []"
| "venue_info (v # vs) =
     and_then (venue_info_line v) (\<lambda>l. and_then (venue_info vs) (\<lambda>ls. Inr (l # ls)))"

text \<open>
  Line 160:
  \<^verbatim>\<open>next((v for v in venues if v["name"].lower() in item["venue_name"].lower()), None)\<close>.
  The condition is evaluated venue by venue, left operand first, and the search stops at
  the first venue that satisfies it; over an empty venue list the item is never looked
  at. Python's \<^verbatim>\<open>a in b\<close> on strings is the contiguous-substring test \<^const>\<open>sublist\<close>.
\<close>

fun venue_match :: "library \<Rightarrow> venue_doc list \<Rightarrow> json \<Rightarrow> exn + venue_doc option" where
  "venue_match lib [] item = Inr None"
| "venue_match lib (v # vs) item =
     (case d_name v of
        None \<Rightarrow> Inl (KeyError ''name'')
      | Some n \<Rightarrow>
          and_then (subscript item ''venue_name'') (\<lambda>x.
          and_then (json_lower lib x) (\<lambda>s.
            if sublist (str_lower lib n) s then Inr (Some v) else venue_match lib vs item)))"

text \<open>Lines 162--167: the item built for a matched stop.\<close>

definition itinerary_item :: "library \<Rightarrow> venue_doc \<Rightarrow> json \<Rightarrow> exn + ItineraryItem" where
  "itinerary_item lib matched item =
     and_then (Venue_of_doc matched) (\<lambda>v.
     and_then (dict_get item ''start_time'' (JStr ''N/A'')) (\<lambda>st.
     and_then (dict_get item ''end_time'' (JStr ''N/A'')) (\<lambda>et.
     and_then (dict_get item ''notes'' (JStr [])) (\<lambda>nt.
     and_then (str_field lib st) (\<lambda>s.
     and_then (str_field lib et) (\<lambda>e.
     and_then (str_field lib nt) (\<lambda>n.
       Inr \<lparr>venue = v, start_time = s, end_time = e, item_notes = n\<rparr>)))))))"

text \<open>Lines 159--168: the loop over the proposed stops.\<close>

fun ai_loop ::
  "library \<Rightarrow> venue_doc list \<Rightarrow> json list \<Rightarrow> ItineraryItem list \<Rightarrow> exn + ItineraryItem list" where
  "ai_loop lib venues [] itinerary_items = Inr itinerary_items"
| "ai_loop lib venues (item # rest) itinerary_items =
     (case venue_match lib venues item of
        Inl e \<Rightarrow> Inl e
      | Inr None \<Rightarrow> ai_loop lib venues rest itinerary_items
      | Inr (Some matched) \<Rightarrow>
          (case itinerary_item lib matched item of
             Inl e \<Rightarrow> Inl e
           | Inr it \<Rightarrow> ai_loop lib venues rest (itinerary_items @ [it])))"

text \<open>
  The body of the \<^verbatim>\<open>try\<close> block. \<open>ai_response\<close> is the outcome of the call to the
  language model followed by \<^verbatim>\<open>json.loads\<close> of its content: an exception (network
  error, malformed response, parse error) or the parsed value.
\<close>

definition ai_itinerary ::
  "library \<Rightarrow> PlanRequest \<Rightarrow> venue_doc list \<Rightarrow> exn + json \<Rightarrow> exn + ItineraryItem list" where
  "ai_itinerary lib request venues ai_response =
     and_then (venue_info (take 15 venues)) (\<lambda>info.
     and_then ai_response (\<lambda>ai_data.
     and_then (dict_get ai_data ''itinerary'' (JArr [])) (\<lambda>stops.
     and_then (py_iter stops) (\<lambda>items.
       ai_loop lib venues items []))))"

definition generate_itinerary ::
  "library \<Rightarrow> PlanRequest \<Rightarrow> WeatherData \<Rightarrow> venue_doc list \<Rightarrow> exn + json
     \<Rightarrow> exn + ItineraryItem list" where
  "generate_itinerary lib request weather_now venues ai_response =
     (case ai_itinerary lib request venues ai_response of
        Inr itinerary_items \<Rightarrow> Inr itinerary_items
      | Inl e \<Rightarrow> fallback_planning request weather_now venues)"

section \<open>Plan creation (create_day_plan, lines 199--227)\<close>

text \<open>
  The datastore holds the venue collection, the indexes declared on it and the plan
  collection. Everything else the handler depends on is its environment: the outcome
  of the weather request, the outcome of the language-model call, whether the datastore
  calls raise, and the identifier and timestamps drawn for the new plan.
\<close>

record Database =
  venues_collection :: "venue_doc list"
  venue_indexes :: "(string \<times> string) set"
  plans_collection :: "DayPlan list"

record Env =
  env_library :: library
  env_weather :: http_result
  env_find :: "exn option"
  env_ai :: "exn + json"
  env_insert :: "exn option"
  env_uuid :: string
  env_today :: string
  env_now :: string

datatype http_response =
    Success DayPlan
  | Failure int exn

text \<open>\<^verbatim>\<open>venues_collection.find({}).to_list(100)\<close>: at most the first 100 documents.\<close>

definition find_venues :: "Env \<Rightarrow> Database \<Rightarrow> exn + venue_doc list" where
  "find_venues env db =
     (case env_find env of
        Some e \<Rightarrow> Inl e
      | None \<Rightarrow> Inr (take 100 (venues_collection db)))"

definition insert_one :: "Env \<Rightarrow> DayPlan \<Rightarrow> Database \<Rightarrow> exn + Database" where
  "insert_one env plan db =
     (case env_insert env of
        Some e \<Rightarrow> Inl e
      | None \<Rightarrow> Inr (db\<lparr>plans_collection := plans_collection db @ [plan]\<rparr>))"

text \<open>Lines 209--210: \<^verbatim>\<open>price_map.get(item.venue.price_range, 0)\<close>, summed.\<close>

definition price_map :: "string \<Rightarrow> int option" where
  "price_map = map_of [(''$'', 25), (''$$'', 50), (''$$$'', 100), (''$$$$'', 150)]"

definition price_of :: "ItineraryItem \<Rightarrow> int" where
  "price_of item = (case price_map (price_range (venue item)) of None \<Rightarrow> 0 | Some p \<Rightarrow> p)"

definition compute_estimated_cost :: "ItineraryItem list \<Rightarrow> int" where
  "compute_estimated_cost items = sum_list (map price_of items)"

text \<open>The body of the handler's \<^verbatim>\<open>try\<close> block.\<close>

definition plan_body :: "Env \<Rightarrow> PlanRequest \<Rightarrow> Database \<Rightarrow> exn + DayPlan \<times> Database" where
  "plan_body env request db =
     (let weather_now = get_current_weather (env_library env) (env_weather env) in
      and_then (find_venues env db) (\<lambda>venues.
      and_then (generate_itinerary (env_library env) request weather_now venues (env_ai env))
        (\<lambda>items.
           if items = [] then Inl (HTTPException 500 ''Failed to generate itinerary.'')
           else
             (let day_plan =
                \<lparr>plan_id = env_uuid env, plan_location = req_location request,
                 date = env_today env, weather = weather_now,
                 total_budget = budget request,
                 estimated_cost = compute_estimated_cost items,
                 itinerary = items, created_at = env_now env\<rparr>
              in and_then (insert_one env day_plan db) (\<lambda>db'. Inr (day_plan, db'))))))"

text \<open>
  \<^verbatim>\<open>except Exception as e: raise HTTPException(status_code=500, detail=str(e))\<close>: the
  response carries status 500 and the text of the exception caught, kept here as the
  exception itself. The \<^verbatim>\<open>HTTPException\<close> of line 207 is caught by the same handler.
\<close>

definition create_day_plan :: "Env \<Rightarrow> PlanRequest \<Rightarrow> Database \<Rightarrow> http_response \<times> Database" where
  "create_day_plan env request db =
     (case plan_body env request db of
        Inr (day_plan, db') \<Rightarrow> (Success day_plan, db')
      | Inl e \<Rightarrow> (Failure 500 e, db))"

section \<open>The catalogs and the seeding script\<close>

definition empty_doc :: venue_doc where
  "empty_doc =
     \<lparr>d_id = None, d_name = None, d_category = None, d_location = None,
      d_price_range = None, d_rating = None, d_description = None,
      d_popular_items = None, d_popular_dishes = None, d_opening_hours = None,
      d_estimated_duration = None, d_booking_url = None\<rparr>"

text \<open>\<^verbatim>\<open>SAMPLE_VENUES\<close> of server.py (lines 93--104); the two identifiers are drawn at
  import time.\<close>

definition SAMPLE_VENUES :: "string \<Rightarrow> string \<Rightarrow> venue_doc list" where
  "SAMPLE_VENUES id1 id2 =
     [empty_doc\<lparr>d_id := Some id1, d_name := Some ''The Coffee Corner'',
        d_category := Some ''restaurant'',
        d_location := Some \<lparr>d_lat = 407589 / 10000, d_lng = - (739851 / 10000),
                             d_address = Some ''123 Broadway, NYC''\<rparr>,
        d_price_range := Some ''$$'', d_rating := Some (45 / 10),
        d_description := Some ''Cozy coffee shop'',
        d_opening_hours := Some ''7:00 AM - 6:00 PM'',
        d_estimated_duration := Some 45\<rparr>,
      empty_doc\<lparr>d_id := Some id2, d_name := Some ''Central Park'',
        d_category := Some ''attraction'',
        d_location := Some \<lparr>d_lat = 407821 / 10000, d_lng = - (739654 / 10000),
                             d_address = Some ''Central Park, NYC''\<rparr>,
        d_price_range := Some ''$'', d_rating := Some (48 / 10),
        d_description := Some ''Iconic urban park'',
        d_opening_hours := Some ''6:00 AM - 1:00 AM'',
        d_estimated_duration := Some 120\<rparr>]"

text \<open>\<^verbatim>\<open>OUR_VENUES\<close> of populate_db.py (lines 7--69).\<close>

definition OUR_VENUES :: "venue_doc list" where
  "OUR_VENUES =
     [empty_doc\<lparr>d_name := Some ''Tech Cafe 2049'', d_category := Some ''restaurant'',
        d_location := Some \<lparr>d_lat = 129716 / 10000, d_lng = 775946 / 10000, d_address = None\<rparr>,
        d_price_range := Some ''$$'', d_rating := Some (47 / 10),
        d_popular_dishes := Some [''Quantum Quiche'', ''Neural-Net Nachos''],
        d_booking_url := Some ''https://example.com/book/techcafe''\<rparr>,
      empty_doc\<lparr>d_name := Some ''The Green Leaf Bistro'', d_category := Some ''restaurant'',
        d_location := Some \<lparr>d_lat = 129345 / 10000, d_lng = 776244 / 10000, d_address = None\<rparr>,
        d_price_range := Some ''$$$'', d_rating := Some (49 / 10),
        d_popular_dishes := Some [''Avocado Toast'', ''Kale Smoothie'', ''Vegan Burger''],
        d_booking_url := Some ''https://example.com/book/greenleaf''\<rparr>,
      empty_doc\<lparr>d_name := Some ''City Art Gallery'', d_category := Some ''attraction'',
        d_location := Some \<lparr>d_lat = 129757 / 10000, d_lng = 775929 / 10000, d_address = None\<rparr>,
        d_price_range := Some ''$'', d_rating := Some (46 / 10),
        d_description := Some ''Features modern and contemporary art from local artists.''\<rparr>,
      empty_doc\<lparr>d_name := Some ''Innovate Hub'', d_category := Some ''activity'',
        d_location := Some \<lparr>d_lat = 129279 / 10000, d_lng = 776271 / 10000, d_address = None\<rparr>,
        d_price_range := Some ''Free'', d_rating := Some (48 / 10),
        d_description :=
          Some ''A co-working and event space for tech enthusiasts. Hosts weekly meetups.''\<rparr>,
      empty_doc\<lparr>d_name := Some ''The Escape Room: Sector 7'', d_category := Some ''activity'',
        d_location := Some \<lparr>d_lat = 129352 / 10000, d_lng = 776169 / 10000, d_address = None\<rparr>,
        d_price_range := Some ''$$$'', d_rating := Some (49 / 10),
        d_description := Some ''A challenging sci-fi themed escape room adventure.'',
        d_booking_url := Some ''https://example.com/book/escaperoom7''\<rparr>,
      empty_doc\<lparr>d_name := Some ''Rooftop Cinema Club'', d_category := Some ''event'',
        d_location := Some \<lparr>d_lat = 129592 / 10000, d_lng = 776455 / 10000, d_address = None\<rparr>,
        d_price_range := Some ''$$'', d_rating := Some (47 / 10),
        d_description := Some ''Outdoor movie screenings with classic films and city views.'',
        d_booking_url := Some ''https://example.com/book/rooftopcinema''\<rparr>,
      empty_doc\<lparr>d_name := Some ''Downtown Music Hall'', d_category := Some ''event'',
        d_location := Some \<lparr>d_lat = 129845 / 10000, d_lng = 775995 / 10000, d_address = None\<rparr>,
        d_price_range := Some ''$$$'', d_rating := Some (46 / 10),
        d_description :=
          Some ''Live music venue featuring indie bands and international artists.'',
        d_booking_url := Some ''https://example.com/book/downtownmusic''\<rparr>]"

text \<open>
  The datastore operations \<^verbatim>\<open>populate_database\<close> calls (populate_db.py, lines 71--92).
  \<^verbatim>\<open>delete_many({})\<close> removes every document and keeps the indexes; \<^verbatim>\<open>insert_many\<close>
  appends the documents in order; \<^verbatim>\<open>create_index\<close> declares the index, and is a no-op
  when it exists already. A document is its content as the script gives it; the
  \<^verbatim>\<open>_id\<close> the driver adds on insertion is not part of the model, and the calls are
  taken to succeed.
\<close>

definition delete_many :: "Database \<Rightarrow> Database" where
  "delete_many db = db\<lparr>venues_collection := []\<rparr>"

definition insert_many :: "venue_doc list \<Rightarrow> Database \<Rightarrow> Database" where
  "insert_many docs db = db\<lparr>venues_collection := venues_collection db @ docs\<rparr>"

definition create_index :: "string \<times> string \<Rightarrow> Database \<Rightarrow> Database" where
  "create_index key db = db\<lparr>venue_indexes := insert key (venue_indexes db)\<rparr>"

definition count_documents :: "Database \<Rightarrow> nat" where
  "count_documents db = length (venues_collection db)"

definition populate_database :: "Database \<Rightarrow> Database" where
  "populate_database db =
     create_index (''location'', ''2dsphere'') (insert_many OUR_VENUES (delete_many db))"

section \<open>The price table of the specification\<close>

text \<open>
  The table as the specification words it (free, \<^verbatim>\<open>$\<close>, \<^verbatim>\<open>$$\<close>, \<^verbatim>\<open>$$$\<close>, \<^verbatim>\<open>$$$$\<close>, and 0
  for any unknown tier), to be compared with \<^const>\<open>price_of\<close>, which is the code's.
\<close>

definition price_table :: "string \<Rightarrow> int" where
  "price_table tier =
     (if tier = ''free'' then 0
      else if tier = ''$'' then 25
      else if tier = ''$$'' then 50
      else if tier = ''$$$'' then 100
      else if tier = ''$$$$'' then 150
      else 0)"

section \<open>Concrete inputs\<close>

definition example_request :: PlanRequest where
  "example_request =
     \<lparr>req_location = \<lparr>lat = 407589 / 10000, lng = - (739851 / 10000),
                       address = ''Times Square, NYC''\<rparr>,
      budget = 100, interests = [''food''], duration = ''full day'', group_size = 2\<rparr>"

definition other_request :: PlanRequest where
  "other_request =
     \<lparr>req_location = \<lparr>lat = 129716 / 10000, lng = 775946 / 10000, address = ''Bengaluru''\<rparr>,
      budget = 5, interests = [], duration = ''evening'', group_size = 1\<rparr>"

definition sunny :: WeatherData where
  "sunny = \<lparr>temperature = 30, weather_description = ''clear sky'', feels_like = 32,
             humidity = 40, weather_main = ''Clear''\<rparr>"

text \<open>A pydantic that coerces nothing, and lower-casing on ASCII.\<close>

definition plain_library :: library where
  "plain_library =
     \<lparr>coerce_str = (\<lambda>j. None), coerce_float = (\<lambda>j. None), coerce_int = (\<lambda>j. None),
      str_lower = ascii_lower\<rparr>"

definition sample_venues :: "venue_doc list" where
  "sample_venues = SAMPLE_VENUES ''venue-1'' ''venue-2''"

definition coffee_corner :: Venue where
  "coffee_corner =
     \<lparr>venue_id = ''venue-1'', name = ''The Coffee Corner'', category = ''restaurant'',
      venue_location = \<lparr>lat = 407589 / 10000, lng = - (739851 / 10000),
                         address = ''123 Broadway, NYC''\<rparr>,
      price_range = ''$$'', rating = 45 / 10, description = ''Cozy coffee shop'',
      popular_items = [], opening_hours = ''7:00 AM - 6:00 PM'', estimated_duration = 45,
      booking_url = None\<rparr>"

definition central_park :: Venue where
  "central_park =
     \<lparr>venue_id = ''venue-2'', name = ''Central Park'', category = ''attraction'',
      venue_location = \<lparr>lat = 407821 / 10000, lng = - (739654 / 10000),
                         address = ''Central Park, NYC''\<rparr>,
      price_range = ''$'', rating = 48 / 10, description = ''Iconic urban park'',
      popular_items = [], opening_hours = ''6:00 AM - 1:00 AM'', estimated_duration = 120,
      booking_url = None\<rparr>"

text \<open>The sample venues with other visit durations.\<close>

definition with_duration :: "int \<Rightarrow> venue_doc \<Rightarrow> venue_doc" where
  "with_duration m d = d\<lparr>d_estimated_duration := Some m\<rparr>"

text \<open>A response of the language model that proposes one stop, at a place that is
  not in the catalog, and one that proposes two stops, the first of them in the catalog.\<close>

definition museum_response :: json where
  "museum_response =
     JObj [(''itinerary'',
        JArr [JObj [(''venue_name'', JStr ''City Museum''), (''start_time'', JStr ''10:00''),
                    (''end_time'', JStr ''12:00''), (''notes'', JStr ''Bring a camera'')]])]"

definition coffee_stop :: json where
  "coffee_stop =
     JObj [(''venue_name'', JStr ''Breakfast at the coffee corner''),
           (''start_time'', JStr ''08:00''), (''end_time'', JStr ''08:45'')]"

definition museum_stop :: json where
  "museum_stop =
     JObj [(''venue_name'', JStr ''City Museum''), (''start_time'', JStr ''10:00''),
           (''end_time'', JStr ''12:00''), (''notes'', JStr ''Bring a camera'')]"

text \<open>A proposed stop without a venue name, a response that proposes the coffee stop
  and then this one, and the item the planner builds for the coffee stop.\<close>

definition nameless_stop :: json where
  "nameless_stop = JObj [(''start_time'', JStr ''13:00''), (''end_time'', JStr ''14:00'')]"

definition nameless_response :: json where
  "nameless_response = JObj [(''itinerary'', JArr [coffee_stop, nameless_stop])]"

definition coffee_item :: ItineraryItem where
  "coffee_item =
     \<lparr>venue = coffee_corner, start_time = ''08:00'', end_time = ''08:45'', item_notes = []\<rparr>"

definition example_env :: Env where
  "example_env =
     \<lparr>env_library = plain_library, env_weather = Raised TimeoutException,
      env_find = None, env_ai = Inl APIError, env_insert = None,
      env_uuid = ''plan-1'', env_today = ''2024-05-01'', env_now = ''2024-05-01T10:00:00''\<rparr>"

definition example_db :: Database where
  "example_db = \<lparr>venues_collection = sample_venues, venue_indexes = {}, plans_collection = []\<rparr>"

text \<open>The itinerary the fallback strategy builds from the sample venues.\<close>

definition sample_itinerary :: "ItineraryItem list" where
  "sample_itinerary =
     [\<lparr>venue = central_park, start_time = ''09:00'', end_time = ''11:00'',
       item_notes = ''A great choice.''\<rparr>,
      \<lparr>venue = coffee_corner, start_time = ''11:30'', end_time = ''12:15'',
       item_notes = ''A great choice.''\<rparr>]"

section \<open>Wall-clock strings\<close>

text \<open>Reading back what \<^const>\<open>strftime_HM\<close> prints gives the minute of the day.\<close>

lemma digit_val_digit_char: "0 \<le> d \<Longrightarrow> d \<le> 9 \<Longrightarrow> digit_val (digit_char d) = d"
proof -
  assume "0 \<le> d" "d \<le> 9"
  then have "d = 0 \<or> d = 1 \<or> d = 2 \<or> d = 3 \<or> d = 4 \<or> d = 5 \<or> d = 6 \<or> d = 7 \<or> d = 8 \<or> d = 9"
    by arith
  then show ?thesis
    by (elim disjE) (simp_all add: digit_val_def digit_char_def)
qed

lemma minutes_of_two_digits:
  "minutes_of_day (two_digits h @ c # two_digits m) =
     (digit_val (digit_char (h div 10)) * 10 + digit_val (digit_char (h mod 10))) * 60
      + (digit_val (digit_char (m div 10)) * 10 + digit_val (digit_char (m mod 10)))"
  by (simp add: two_digits_def)

lemma two_digits_value: "0 \<le> n \<Longrightarrow> n < 100 \<Longrightarrow>
   digit_val (digit_char (n div 10)) * 10 + digit_val (digit_char (n mod 10)) = n"
proof -
  assume n: "0 \<le> n" "n < 100"
  have a: "digit_val (digit_char (n div 10)) = n div 10"
    using n by (intro digit_val_digit_char) auto
  have b: "digit_val (digit_char (n mod 10)) = n mod 10"
    by (intro digit_val_digit_char) auto
  show ?thesis unfolding a b by presburger
qed

lemma minutes_of_day_strftime: "minutes_of_day (strftime_HM t) = t mod 1440"
proof -
  have h: "0 \<le> (t mod 1440) div 60" "(t mod 1440) div 60 < 100"
    by (auto simp: div_less_iff_less_mult) 
  have m: "0 \<le> t mod 60" "t mod 60 < 100" by auto
  have "minutes_of_day (strftime_HM t) = ((t mod 1440) div 60) * 60 + t mod 60"
    unfolding strftime_HM_def append_Cons append_Nil minutes_of_two_digits
    using two_digits_value[OF h] two_digits_value[OF m] by simp
  also have "\<dots> = ((t mod 1440) div 60) * 60 + (t mod 1440) mod 60"
    by (simp add: mod_mod_cancel)
  also have "\<dots> = t mod 1440" by (rule div_mult_mod_eq)
  finally show ?thesis .
qed

section \<open>The fallback loop\<close>

lemma add_minutes_Inr: "add_minutes t m = Inr e \<Longrightarrow> e = t + m"
  by (auto simp: add_minutes_def split: if_splits)

lemma Venue_of_doc_fields:
  "Venue_of_doc d = Inr v \<Longrightarrow>
     d_estimated_duration d = Some (estimated_duration v) \<and> d_rating d = Some (rating v)
     \<and> d_name d = Some (name v) \<and> d_price_range d = Some (price_range v)"
  by (auto simp: Venue_of_doc_def split: if_splits sum.splits)

lemma fallback_loop_acc:
  "fallback_loop t vs acc =
     (case fallback_loop t vs [] of Inl e \<Rightarrow> Inl e | Inr new \<Rightarrow> Inr (acc @ new))"
proof (induction vs arbitrary: t acc)
  case Nil
  show ?case by simp
next
  case (Cons v rest)
  show ?case
  proof (cases "d_estimated_duration v")
    case None
    then show ?thesis by simp
  next
    case (Some d)
    show ?thesis
    proof (cases "add_minutes t d")
      case (Inl e)
      with Some show ?thesis by simp
    next
      case e: (Inr e)
      show ?thesis
      proof (cases "Venue_of_doc v")
        case (Inl x)
        with Some e show ?thesis by simp
      next
        case vv: (Inr vv)
        show ?thesis
        proof (cases "add_minutes e 30")
          case (Inl x)
          with Some e vv show ?thesis by simp
        next
          case t': (Inr t')
          let ?it = "\<lparr>venue = vv, start_time = strftime_HM t, end_time = strftime_HM e,
                      item_notes = ''A great choice.''\<rparr>"
          have 1: "fallback_loop t (v # rest) acc = fallback_loop t' rest (acc @ [?it])"
            using Some e vv t' by simp
          have 2: "fallback_loop t (v # rest) [] = fallback_loop t' rest [?it]"
            using Some e vv t' by simp
          show ?thesis
            unfolding 1 2
            by (subst Cons.IH[of t' "acc @ [?it]"], subst Cons.IH[of t' "[?it]"])
               (simp split: sum.splits)
        qed
      qed
    qed
  qed
qed

lemma fallback_loop_Cons:
  "fallback_loop t (v # rest) [] = Inr res \<longleftrightarrow>
     (\<exists>vv res'. Venue_of_doc v = Inr vv
        \<and> add_minutes t (estimated_duration vv) = Inr (t + estimated_duration vv)
        \<and> add_minutes (t + estimated_duration vv) 30 = Inr (t + estimated_duration vv + 30)
        \<and> fallback_loop (t + estimated_duration vv + 30) rest [] = Inr res'
        \<and> res = \<lparr>venue = vv, start_time = strftime_HM t,
                   end_time = strftime_HM (t + estimated_duration vv),
                   item_notes = ''A great choice.''\<rparr> # res')"
proof (cases "Venue_of_doc v")
  case (Inl x)
  then show ?thesis
    by (auto split: option.splits sum.splits)
next
  case (Inr vv)
  note dv = Venue_of_doc_fields[OF Inr]
  show ?thesis
  proof (cases "add_minutes t (estimated_duration vv)")
    case (Inl x)
    then show ?thesis using Inr dv by auto
  next
    case e: (Inr e)
    have ee: "e = t + estimated_duration vv" using e by (rule add_minutes_Inr)
    show ?thesis
    proof (cases "add_minutes e 30")
      case (Inl x)
      then show ?thesis using Inr dv e ee by auto
    next
      case t': (Inr t')
      have tt: "t' = e + 30" using t' by (rule add_minutes_Inr)
      show ?thesis
        using Inr dv e t' ee tt
        by (simp add: fallback_loop_acc[of _ rest "[_]"] split: sum.splits) auto
    qed
  qed
qed

lemma fallback_loop_length:
  "fallback_loop t vs [] = Inr res \<Longrightarrow> length res = length vs"
proof (induction vs arbitrary: t res)
  case Nil
  then show ?case by simp
next
  case (Cons v rest)
  from Cons.prems obtain vv res' where
    "fallback_loop (t + estimated_duration vv + 30) rest [] = Inr res'"
    "Venue_of_doc v = Inr vv" "venue (hd res) = vv" "res = hd res # res'"
    unfolding fallback_loop_Cons by auto
  then show ?case using Cons.IH by (metis length_Cons list.simps(9))
qed

lemma fallback_loop_venues:
  "fallback_loop t vs [] = Inr res \<Longrightarrow> map Venue_of_doc vs = map Inr (map venue res)"
proof (induction vs arbitrary: t res)
  case Nil
  then show ?case by simp
next
  case (Cons v rest)
  from Cons.prems obtain vv res' where
    "fallback_loop (t + estimated_duration vv + 30) rest [] = Inr res'"
    "Venue_of_doc v = Inr vv" "venue (hd res) = vv" "res = hd res # res'"
    unfolding fallback_loop_Cons by auto
  then show ?case using Cons.IH by (metis length_Cons list.simps(9))
qed

lemma fallback_loop_first:
  "fallback_loop t vs [] = Inr res \<Longrightarrow> res \<noteq> [] \<Longrightarrow> start_time (hd res) = strftime_HM t"
proof (cases vs)
  case Nil
  assume "fallback_loop t vs [] = Inr res" "res \<noteq> []"
  with Nil show ?thesis by simp
next
  case (Cons v rest)
  assume "fallback_loop t vs [] = Inr res"
  then show ?thesis unfolding Cons fallback_loop_Cons by auto
qed

lemma fallback_loop_end:
  "fallback_loop t vs [] = Inr res \<Longrightarrow> it \<in> set res \<Longrightarrow>
     minutes_of_day (end_time it) =
       (minutes_of_day (start_time it) + estimated_duration (venue it)) mod 1440"
proof (induction vs arbitrary: t res)
  case Nil
  then show ?case by simp
next
  case (Cons v rest)
  from Cons.prems(1) obtain vv res' where
    rest: "fallback_loop (t + estimated_duration vv + 30) rest [] = Inr res'" and
    res: "res = \<lparr>venue = vv, start_time = strftime_HM t,
                  end_time = strftime_HM (t + estimated_duration vv),
                  item_notes = ''A great choice.''\<rparr> # res'"
    unfolding fallback_loop_Cons by blast
  show ?case
  proof (cases "it \<in> set res'")
    case True
    then show ?thesis using Cons.IH[OF rest] by simp
  next
    case False
    then have "it = \<lparr>venue = vv, start_time = strftime_HM t,
                  end_time = strftime_HM (t + estimated_duration vv),
                  item_notes = ''A great choice.''\<rparr>"
      using Cons.prems(2) res by simp
    then show ?thesis
      by (simp add: minutes_of_day_strftime mod_add_left_eq)
  qed
qed

lemma fallback_loop_gap:
  "fallback_loop t vs [] = Inr res \<Longrightarrow> Suc i < length res \<Longrightarrow>
     minutes_of_day (start_time (res ! Suc i)) =
       (minutes_of_day (end_time (res ! i)) + 30) mod 1440"
proof (induction vs arbitrary: t res i)
  case Nil
  then show ?case by simp
next
  case (Cons v rest)
  from Cons.prems(1) obtain vv res' where
    rest: "fallback_loop (t + estimated_duration vv + 30) rest [] = Inr res'" and
    res: "res = \<lparr>venue = vv, start_time = strftime_HM t,
                  end_time = strftime_HM (t + estimated_duration vv),
                  item_notes = ''A great choice.''\<rparr> # res'"
    unfolding fallback_loop_Cons by blast
  show ?case
  proof (cases i)
    case 0
    then have ne: "res' \<noteq> []" using Cons.prems(2) res by auto
    have "start_time (hd res') = strftime_HM (t + estimated_duration vv + 30)"
      using fallback_loop_first[OF rest ne] .
    then have "start_time (res ! Suc i) = strftime_HM (t + estimated_duration vv + 30)"
      using 0 res ne by (simp add: hd_conv_nth)
    moreover have "end_time (res ! i) = strftime_HM (t + estimated_duration vv)"
      using 0 res by simp
    ultimately show ?thesis
      by (simp add: minutes_of_day_strftime mod_add_left_eq)
  next
    case (Suc j)
    then have "Suc j < length res'" using Cons.prems(2) res by simp
    from Cons.IH[OF rest this] show ?thesis using Suc res by simp
  qed
qed

text \<open>The loop returns when every document validates and the durations are bounded.\<close>

lemma fallback_loop_succeeds:
  "map Venue_of_doc vs = map Inr vvs \<Longrightarrow>
   \<forall>v \<in> set vvs. 0 \<le> estimated_duration v \<and> estimated_duration v \<le> B \<Longrightarrow>
   datetime_min \<le> t \<Longrightarrow> t + int (length vs) * (B + 30) \<le> datetime_max \<Longrightarrow>
   \<exists>res. fallback_loop t vs [] = Inr res"
proof (induction vs arbitrary: t vvs)
  case Nil
  show ?case by simp
next
  case (Cons v rest)
  from Cons.prems(1) obtain vv vvs' where vvs: "vvs = vv # vvs'"
    and vv: "Venue_of_doc v = Inr vv" and rest: "map Venue_of_doc rest = map Inr vvs'"
    by (cases vvs) auto
  have d: "0 \<le> estimated_duration vv" "estimated_duration vv \<le> B"
    using Cons.prems(2) vvs by auto
  have B: "0 \<le> B" using d by linarith
  have len: "0 \<le> int (length rest) * (B + 30)" using B by simp
  have step: "t + int (length (v # rest)) * (B + 30)
        = (t + B + 30) + int (length rest) * (B + 30)"
    by (simp add: algebra_simps)
  have up: "t + B + 30 + int (length rest) * (B + 30) \<le> datetime_max"
    using Cons.prems(4) step by simp
  have r1: "datetime_min \<le> t + estimated_duration vv \<and> t + estimated_duration vv \<le> datetime_max"
    using d Cons.prems(3) up len by linarith
  have r2: "datetime_min \<le> t + estimated_duration vv + 30
      \<and> t + estimated_duration vv + 30 \<le> datetime_max"
    using d Cons.prems(3) up len by linarith
  have a1: "add_minutes t (estimated_duration vv) = Inr (t + estimated_duration vv)"
    using r1 by (simp add: add_minutes_def)
  have a2: "add_minutes (t + estimated_duration vv) 30 = Inr (t + estimated_duration vv + 30)"
    using r2 by (simp add: add_minutes_def)
  have "\<exists>res. fallback_loop (t + estimated_duration vv + 30) rest [] = Inr res"
  proof (rule Cons.IH[OF rest])
    show "\<forall>v\<in>set vvs'. 0 \<le> estimated_duration v \<and> estimated_duration v \<le> B"
      using Cons.prems(2) vvs by simp
    show "datetime_min \<le> t + estimated_duration vv + 30"
      using d Cons.prems(3) by linarith
    show "t + estimated_duration vv + 30 + int (length rest) * (B + 30) \<le> datetime_max"
      using up d by linarith
  qed
  then show ?case
    unfolding fallback_loop_Cons using vv a1 a2 by auto
qed

section \<open>Sorting by rating\<close>

lemma map_insort_key:
  "k2 (f x) = k1 x \<Longrightarrow> \<forall>y \<in> set ys. k2 (f y) = k1 y \<Longrightarrow>
     map f (insort_key k1 x ys) = insort_key k2 (f x) (map f ys)"
  by (induction ys) auto

lemma map_sort_key:
  "\<forall>x \<in> set xs. k2 (f x) = k1 x \<Longrightarrow> map f (sort_key k1 xs) = sort_key k2 (map f xs)"
proof (induction xs)
  case Nil
  show ?case by simp
next
  case (Cons x xs)
  have "map f (insort_key k1 x (sort_key k1 xs)) = insort_key k2 (f x) (map f (sort_key k1 xs))"
    using Cons.prems by (intro map_insort_key) auto
  then show ?case using Cons by simp
qed

lemma map_sorted_reverse:
  "\<forall>x \<in> set xs. k2 (f x) = k1 x \<Longrightarrow>
     map f (sorted_reverse k1 xs) = sorted_reverse k2 (map f xs)"
  unfolding sorted_reverse_def
  by (simp add: rev_map[symmetric] map_sort_key)

lemma sorted_reverse_descending:
  "sorted_wrt (\<lambda>a b. key b \<le> key a) (sorted_reverse key xs)"
proof -
  have "sorted (map key (sort_key key (rev xs)))" by (rule sorted_sort_key)
  then have "sorted_wrt (\<lambda>a b. key a \<le> key b) (sort_key key (rev xs))"
    by (simp add: sorted_wrt_map)
  then show ?thesis
    unfolding sorted_reverse_def by (simp add: sorted_wrt_rev)
qed

lemma sorted_reverse_stable:
  "filter (\<lambda>y. key y = k) (sorted_reverse key xs) = filter (\<lambda>y. key y = k) xs"
  unfolding sorted_reverse_def
  by (simp add: rev_filter[symmetric] sort_key_stable)

lemma length_sorted_reverse: "length (sorted_reverse key xs) = length xs"
  by (simp add: sorted_reverse_def)

lemma set_sorted_reverse: "set (sorted_reverse key xs) = set xs"
  by (simp add: sorted_reverse_def)

lemma filter_take_prefix: "prefix (filter P (take n xs)) (filter P xs)"
proof -
  have "filter P xs = filter P (take n xs) @ filter P (drop n xs)"
    by (metis append_take_drop_id filter_append)
  then show ?thesis by (metis prefixI)
qed

lemma Venue_docs_projection:
  assumes "map Venue_of_doc venues = map Inr vs"
  shows "vs = map (\<lambda>d. projr (Venue_of_doc d)) venues"
    and "\<forall>d \<in> set venues. Venue_of_doc d = Inr (projr (Venue_of_doc d))"
proof -
  have len: "length venues = length vs" using assms by (metis length_map)
  have nth: "\<And>i. i < length venues \<Longrightarrow> Venue_of_doc (venues ! i) = Inr (vs ! i)"
    using assms len by (metis nth_map)
  show "vs = map (\<lambda>d. projr (Venue_of_doc d)) venues"
    by (rule nth_equalityI) (simp_all add: len[symmetric] nth)
  show "\<forall>d \<in> set venues. Venue_of_doc d = Inr (projr (Venue_of_doc d))"
    by (metis in_set_conv_nth nth sum.sel(2))
qed

lemma sorted_by_rating_valid:
  assumes "map Venue_of_doc venues = map Inr vs"
  shows "\<exists>sd. sorted_by_rating venues = Inr sd
           \<and> map Venue_of_doc sd = map Inr (sorted_reverse rating vs)"
proof -
  let ?f = "\<lambda>d. projr (Venue_of_doc d)"
  note pr = Venue_docs_projection[OF assms]
  have rt: "\<forall>d \<in> set venues. d_rating d = Some (rating (?f d))"
    using pr(2) Venue_of_doc_fields by metis
  then have no: "\<not> list_ex (\<lambda>x. d_rating x = None) venues"
    by (auto simp: list_ex_iff)
  let ?sd = "sorted_reverse (\<lambda>x. the (d_rating x)) venues"
  have sd: "sorted_by_rating venues = Inr ?sd"
    using no by (simp add: sorted_by_rating_def)
  have "map ?f ?sd = sorted_reverse rating (map ?f venues)"
    by (rule map_sorted_reverse) (simp add: rt)
  then have m: "map ?f ?sd = sorted_reverse rating vs" using pr(1) by simp
  have "map Venue_of_doc ?sd = map (\<lambda>d. Inr (?f d)) ?sd"
    by (rule map_cong[OF refl]) (use pr(2) in \<open>simp add: set_sorted_reverse\<close>)
  also have "\<dots> = map Inr (map ?f ?sd)" by simp
  finally have "map Venue_of_doc ?sd = map Inr (sorted_reverse rating vs)"
    using m by simp
  with sd show ?thesis by blast
qed

lemma map_Inr_eq: "map Inr xs = map Inr ys \<Longrightarrow> xs = ys"
  by (simp add: inj_map_eq_map)

lemma fallback_planning_result:
  assumes ok: "fallback_planning request weather_now venues = Inr items"
  shows "\<exists>sd. sorted_by_rating venues = Inr sd
            \<and> fallback_loop strptime_0900 (take 5 sd) [] = Inr items
            \<and> length sd = length venues"
proof (cases "sorted_by_rating venues")
  case (Inl e)
  with ok show ?thesis by (simp add: fallback_planning_def)
next
  case (Inr sd)
  then have "sd = sorted_reverse (\<lambda>x. the (d_rating x)) venues"
    by (auto simp: sorted_by_rating_def split: if_splits)
  then have "length sd = length venues" by (simp add: length_sorted_reverse)
  with Inr ok show ?thesis by (simp add: fallback_planning_def)
qed

text \<open>
  Claim C2, amended. For every non-empty list of venue documents that all validate as
  \<^typ>\<open>Venue\<close>s with a visit duration between 0 and 500,000,000 minutes, the fallback
  strategy returns between 1 and 5 items (five, or all of them when there are fewer);
  their venues are the first five of the stable descending sort by rating, so they are
  in non-increasing order of rating, and for every rating the venues kept with that
  rating are the first ones of the input with that rating, in their input order.
\<close>

theorem fallback_planning_top_rated:
  assumes docs: "map Venue_of_doc venues = map Inr vs"
    and nonempty: "venues \<noteq> []"
    and durations: "\<forall>v \<in> set vs. 0 \<le> estimated_duration v \<and> estimated_duration v \<le> 500000000"
  shows "\<exists>items. fallback_planning request weather_now venues = Inr items
           \<and> 1 \<le> length items \<and> length items \<le> 5
           \<and> length items = min 5 (length venues)
           \<and> map venue items = take 5 (sorted_reverse rating vs)
           \<and> sorted_wrt (\<lambda>a b. rating b \<le> rating a) (map venue items)
           \<and> (\<forall>k. prefix (filter (\<lambda>v. rating v = k) (map venue items))
                         (filter (\<lambda>v. rating v = k) vs))"
proof -
  from sorted_by_rating_valid[OF docs] obtain sd where
    sd: "sorted_by_rating venues = Inr sd" and
    vsd: "map Venue_of_doc sd = map Inr (sorted_reverse rating vs)"
    by blast
  let ?top = "take 5 (sorted_reverse rating vs)"
  have len_vs: "length vs = length venues" using docs by (metis length_map)
  have len_sd: "length sd = length venues"
    using vsd len_vs by (metis length_map length_sorted_reverse)
  have top: "map Venue_of_doc (take 5 sd) = map Inr ?top"
    using vsd by (metis take_map)
  have dur: "\<forall>v \<in> set ?top. 0 \<le> estimated_duration v \<and> estimated_duration v \<le> 500000000"
    using durations by (metis in_set_takeD set_sorted_reverse)
  have l5: "int (length (take 5 sd)) \<le> 5" by simp
  have bound: "strptime_0900 + int (length (take 5 sd)) * (500000000 + 30) \<le> datetime_max"
  proof -
    have "int (length (take 5 sd)) * (500000000 + 30) \<le> 5 * (500000000 + 30)"
      using l5 by (intro mult_right_mono) auto
    then show ?thesis by (simp add: strptime_0900_def datetime_max_def)
  qed
  have low: "datetime_min \<le> strptime_0900"
    by (simp add: strptime_0900_def datetime_min_def)
  from fallback_loop_succeeds[OF top dur low bound] obtain items where
    items: "fallback_loop strptime_0900 (take 5 sd) [] = Inr items" by blast
  have res: "fallback_planning request weather_now venues = Inr items"
    using sd items by (simp add: fallback_planning_def)
  have len: "length items = min 5 (length venues)"
    using fallback_loop_length[OF items] len_sd by simp
  have pos: "1 \<le> length items"
    using len nonempty by (cases venues) auto
  have ven: "map venue items = ?top"
    using fallback_loop_venues[OF items] top by (metis map_Inr_eq)
  have srt: "sorted_wrt (\<lambda>a b. rating b \<le> rating a) (map venue items)"
    unfolding ven by (intro sorted_wrt_take sorted_reverse_descending)
  have stab: "\<forall>k. prefix (filter (\<lambda>v. rating v = k) (map venue items))
                         (filter (\<lambda>v. rating v = k) vs)"
  proof
    fix k
    have "prefix (filter (\<lambda>v. rating v = k) ?top)
                 (filter (\<lambda>v. rating v = k) (sorted_reverse rating vs))"
      by (rule filter_take_prefix)
    then show "prefix (filter (\<lambda>v. rating v = k) (map venue items))
                      (filter (\<lambda>v. rating v = k) vs)"
      unfolding ven by (simp add: sorted_reverse_stable)
  qed
  show ?thesis using res pos len ven srt stab by auto
qed

text \<open>
  Claim C3, amended. For every itinerary the fallback strategy produces from a non-empty
  venue list, the first item starts at 09:00, every item's end time is its start time
  plus the venue's duration on the 24-hour clock (modulo 1440 minutes), and every
  item after the first starts 30 minutes, on the 24-hour clock, after the end of the
  item before it.
\<close>

theorem fallback_planning_times:
  assumes ok: "fallback_planning request weather_now venues = Inr items"
    and nonempty: "venues \<noteq> []"
  shows "items \<noteq> [] \<and> start_time (hd items) = ''09:00''
     \<and> (\<forall>it \<in> set items.
           minutes_of_day (end_time it) =
             (minutes_of_day (start_time it) + estimated_duration (venue it)) mod 1440)
     \<and> (\<forall>i. Suc i < length items \<longrightarrow>
           minutes_of_day (start_time (items ! Suc i)) =
             (minutes_of_day (end_time (items ! i)) + 30) mod 1440)"
proof -
  from fallback_planning_result[OF ok] obtain sd where
    loop: "fallback_loop strptime_0900 (take 5 sd) [] = Inr items" and
    len: "length sd = length venues" by blast
  have "length items = min 5 (length venues)"
    using fallback_loop_length[OF loop] len by simp
  then have ne: "items \<noteq> []" using nonempty by (cases venues) auto
  have nine: "strftime_HM strptime_0900 = ''09:00''"
    by (simp add: strftime_HM_def strptime_0900_def two_digits_def digit_char_def)
  have first: "start_time (hd items) = ''09:00''"
    using fallback_loop_first[OF loop ne] nine by simp
  show ?thesis
    using ne first fallback_loop_end[OF loop] fallback_loop_gap[OF loop] by blast
qed

lemma fallback_loop_start:
  "fallback_loop t vs [] = Inr res \<Longrightarrow> it \<in> set res \<Longrightarrow> 0 \<le> minutes_of_day (start_time it)"
proof (induction vs arbitrary: t res)
  case Nil
  then show ?case by simp
next
  case (Cons v rest)
  from Cons.prems(1) obtain vv res' where
    rest: "fallback_loop (t + estimated_duration vv + 30) rest [] = Inr res'" and
    res: "res = \<lparr>venue = vv, start_time = strftime_HM t,
                  end_time = strftime_HM (t + estimated_duration vv),
                  item_notes = ''A great choice.''\<rparr> # res'"
    unfolding fallback_loop_Cons by blast
  show ?case
  proof (cases "it \<in> set res'")
    case True
    then show ?thesis using Cons.IH[OF rest] by simp
  next
    case False
    then have "start_time it = strftime_HM t" using Cons.prems(2) res by auto
    then show ?thesis by (simp add: minutes_of_day_strftime)
  qed
qed

text \<open>
  Claim C4, amended. For every item the fallback strategy produces whose venue has a
  positive duration and whose visit ends before midnight (start plus duration below
  1440 minutes), the end time, read as a time of day, is strictly greater than the
  start time, and is the start time plus the duration.
\<close>

theorem fallback_planning_end_after_start:
  assumes ok: "fallback_planning request weather_now venues = Inr items"
    and it: "it \<in> set items"
    and positive: "0 < estimated_duration (venue it)"
    and same_day: "minutes_of_day (start_time it) + estimated_duration (venue it) < 1440"
  shows "minutes_of_day (start_time it) < minutes_of_day (end_time it)
     \<and> minutes_of_day (end_time it) =
         minutes_of_day (start_time it) + estimated_duration (venue it)"
proof -
  from fallback_planning_result[OF ok] obtain sd where
    loop: "fallback_loop strptime_0900 (take 5 sd) [] = Inr items" by blast
  have s: "0 \<le> minutes_of_day (start_time it)" using fallback_loop_start[OF loop it] .
  have "minutes_of_day (end_time it) =
      (minutes_of_day (start_time it) + estimated_duration (venue it)) mod 1440"
    using fallback_loop_end[OF loop it] .
  also have "\<dots> = minutes_of_day (start_time it) + estimated_duration (venue it)"
    using s positive same_day by (intro mod_pos_pos_trivial) auto
  finally show ?thesis using positive by simp
qed

text \<open>
  Claim C10. The result of the fallback strategy, an itinerary or an exception, is the
  same for any two requests and any two weather snapshots: it is a function of the
  venue list alone.
\<close>

theorem fallback_planning_ignores_request_and_weather:
  "fallback_planning request1 weather1 venues = fallback_planning request2 weather2 venues"
  by (simp add: fallback_planning_def)

section \<open>The fallback strategy on concrete inputs\<close>

lemmas eval_defs =
  fallback_planning_def sorted_by_rating_def sorted_reverse_def sample_venues_def
  SAMPLE_VENUES_def empty_doc_def with_duration_def strptime_0900_def add_minutes_def
  datetime_min_def datetime_max_def Venue_of_doc_def Location_of_doc_def strftime_HM_def
  two_digits_def digit_char_def

lemma sample_docs_valid: "map Venue_of_doc sample_venues = map Inr [coffee_corner, central_park]"
  by (simp add: sample_venues_def SAMPLE_VENUES_def empty_doc_def Venue_of_doc_def
      Location_of_doc_def coffee_corner_def central_park_def)

lemma sample_fallback:
  "fallback_planning example_request sunny sample_venues = Inr sample_itinerary"
  by (simp add: eval_defs sample_itinerary_def central_park_def coffee_corner_def)

theorem fallback_planning_top_rated_witness:
  "\<exists>items. fallback_planning example_request sunny sample_venues = Inr items
      \<and> 1 \<le> length items \<and> length items \<le> 5
      \<and> map venue items = [central_park, coffee_corner]"
proof -
  have ne: "sample_venues \<noteq> []"
    by (simp add: sample_venues_def SAMPLE_VENUES_def)
  have dur: "\<forall>v \<in> set [coffee_corner, central_park].
      0 \<le> estimated_duration v \<and> estimated_duration v \<le> 500000000"
    by (simp add: coffee_corner_def central_park_def)
  have top: "take 5 (sorted_reverse rating [coffee_corner, central_park])
      = [central_park, coffee_corner]"
    by (simp add: sorted_reverse_def coffee_corner_def central_park_def)
  from fallback_planning_top_rated[OF sample_docs_valid ne dur, of example_request sunny]
  obtain items where
    "fallback_planning example_request sunny sample_venues = Inr items"
    "1 \<le> length items" "length items \<le> 5"
    "map venue items = take 5 (sorted_reverse rating [coffee_corner, central_park])"
    by (elim exE conjE)
  then show ?thesis unfolding top by (intro exI conjI)
qed

theorem fallback_planning_seeded_catalog_counterexample:
  "OUR_VENUES \<noteq> []
   \<and> fallback_planning example_request sunny OUR_VENUES = Inl (KeyError ''estimated_duration'')
   \<and> fallback_planning example_request sunny [with_duration 10000000000 (hd sample_venues)]
       = Inl OverflowError"
  by (simp add: eval_defs OUR_VENUES_def)

theorem fallback_planning_times_witness:
  "fallback_planning example_request sunny sample_venues = Inr sample_itinerary
   \<and> start_time (hd sample_itinerary) = ''09:00''
   \<and> minutes_of_day (end_time (sample_itinerary ! 0)) =
         (minutes_of_day (start_time (sample_itinerary ! 0))
            + estimated_duration (venue (sample_itinerary ! 0))) mod 1440
   \<and> minutes_of_day (start_time (sample_itinerary ! Suc 0)) =
         (minutes_of_day (end_time (sample_itinerary ! 0)) + 30) mod 1440"
proof -
  have ne: "sample_venues \<noteq> []"
    by (simp add: sample_venues_def SAMPLE_VENUES_def)
  have mem: "sample_itinerary ! 0 \<in> set sample_itinerary"
    and len: "Suc 0 < length sample_itinerary"
    by (simp_all add: sample_itinerary_def)
  from fallback_planning_times[OF sample_fallback ne] sample_fallback mem len
  show ?thesis by blast
qed

theorem fallback_planning_past_midnight_counterexample:
  "map_sum id (map start_time)
      (fallback_planning example_request sunny [with_duration 900 (hd sample_venues)])
     = Inr [''09:00'']
   \<and> map_sum id (map end_time)
      (fallback_planning example_request sunny [with_duration 900 (hd sample_venues)])
     = Inr [''00:00'']
   \<and> minutes_of_day ''00:00'' \<noteq> minutes_of_day ''09:00'' + 900"
  by (simp add: eval_defs digit_val_def)

theorem fallback_planning_end_after_start_witness:
  "fallback_planning example_request sunny sample_venues = Inr sample_itinerary
   \<and> hd sample_itinerary \<in> set sample_itinerary
   \<and> 0 < estimated_duration (venue (hd sample_itinerary))
   \<and> minutes_of_day (start_time (hd sample_itinerary))
        + estimated_duration (venue (hd sample_itinerary)) < 1440
   \<and> minutes_of_day (start_time (hd sample_itinerary))
        < minutes_of_day (end_time (hd sample_itinerary))"
proof -
  have it: "hd sample_itinerary \<in> set sample_itinerary"
    by (simp add: sample_itinerary_def)
  have pos: "0 < estimated_duration (venue (hd sample_itinerary))"
    by (simp add: sample_itinerary_def central_park_def)
  have day: "minutes_of_day (start_time (hd sample_itinerary))
        + estimated_duration (venue (hd sample_itinerary)) < 1440"
    by (simp add: sample_itinerary_def central_park_def digit_val_def)
  from fallback_planning_end_after_start[OF sample_fallback it pos day]
  show ?thesis using sample_fallback it pos day by blast
qed

theorem fallback_planning_overnight_counterexample:
  "map_sum id (map start_time)
      (fallback_planning example_request sunny (map (with_duration 480) sample_venues))
     = Inr [''09:00'', ''17:30'']
   \<and> map_sum id (map end_time)
      (fallback_planning example_request sunny (map (with_duration 480) sample_venues))
     = Inr [''17:00'', ''01:30'']
   \<and> \<not> minutes_of_day ''17:30'' < minutes_of_day ''01:30''
   \<and> map_sum id (map start_time)
      (fallback_planning example_request sunny [with_duration 0 (hd sample_venues)])
     = Inr [''09:00'']
   \<and> map_sum id (map end_time)
      (fallback_planning example_request sunny [with_duration 0 (hd sample_venues)])
     = Inr [''09:00'']"
  by (simp add: eval_defs digit_val_def)

theorem fallback_planning_ignores_request_and_weather_witness:
  "fallback_planning example_request sunny sample_venues
     = fallback_planning other_request fallback_weather sample_venues"
  using fallback_planning_ignores_request_and_weather
    [of example_request sunny sample_venues other_request fallback_weather]
  by simp

section \<open>Weather lookup\<close>

lemma get_current_weather_exception:
  "weather_request lib outcome = Inl e \<Longrightarrow> get_current_weather lib outcome = fallback_weather"
  by (simp add: get_current_weather_def)

text \<open>
  Claim C7. The weather lookup returns a snapshot for every outcome of the HTTP call (it
  is a total function into \<^typ>\<open>WeatherData\<close>, with no exception in its result type).
  When the call raises (a transport error, a timeout, any other exception), when the
  status is not 2xx, when the body is not JSON, and in general whenever the body of
  the \<^verbatim>\<open>try\<close> block raises, the result is the fixed snapshot: temperature 22.0,
  description "partly cloudy", feels-like 24.0, humidity 65, condition "Clouds".
\<close>

theorem get_current_weather_never_fails:
  "get_current_weather lib (Raised e) = fallback_weather
   \<and> (\<not> (200 \<le> status \<and> status \<le> 299) \<longrightarrow>
        get_current_weather lib (Responded status body) = fallback_weather)
   \<and> get_current_weather lib (Responded status None) = fallback_weather
   \<and> (\<forall>outcome e'. weather_request lib outcome = Inl e' \<longrightarrow>
        get_current_weather lib outcome = fallback_weather)
   \<and> fallback_weather =
        \<lparr>temperature = 22, weather_description = ''partly cloudy'', feels_like = 24,
         humidity = 65, weather_main = ''Clouds''\<rparr>"
proof -
  have 1: "get_current_weather lib (Raised e) = fallback_weather"
    by (simp add: get_current_weather_def weather_request_def)
  have 2: "\<not> (200 \<le> status \<and> status \<le> 299) \<longrightarrow>
        get_current_weather lib (Responded status body) = fallback_weather"
    by (simp add: get_current_weather_def weather_request_def raise_for_status_def)
  have 3: "get_current_weather lib (Responded status None) = fallback_weather"
    by (simp add: get_current_weather_def weather_request_def raise_for_status_def)
  have 4: "\<forall>outcome e'. weather_request lib outcome = Inl e' \<longrightarrow>
        get_current_weather lib outcome = fallback_weather"
    by (simp add: get_current_weather_exception)
  show ?thesis using 1 2 3 4 by (simp add: fallback_weather_def)
qed

theorem get_current_weather_never_fails_witness:
  "get_current_weather plain_library (Raised TimeoutException) = fallback_weather
   \<and> \<not> (200 \<le> (503::int) \<and> (503::int) \<le> 299)
   \<and> get_current_weather plain_library (Responded 503 (Some JNull)) = fallback_weather
   \<and> temperature (get_current_weather plain_library (Raised TransportError)) = 22"
proof -
  have h: "\<not> (200 \<le> (503::int) \<and> (503::int) \<le> 299)" by simp
  note t1 = get_current_weather_never_fails[of plain_library TimeoutException 503 "Some JNull"]
  note t2 = get_current_weather_never_fails[of plain_library TransportError 503 "Some JNull"]
  have a: "get_current_weather plain_library (Raised TimeoutException) = fallback_weather"
    using t1 by blast
  have b: "get_current_weather plain_library (Responded 503 (Some JNull)) = fallback_weather"
    using t1 h by blast
  have c: "get_current_weather plain_library (Raised TransportError) = fallback_weather"
    using t2 by blast
  have eq: "fallback_weather =
        \<lparr>temperature = 22, weather_description = ''partly cloudy'', feels_like = 24,
         humidity = 65, weather_main = ''Clouds''\<rparr>"
    using t1 by blast
  have d: "temperature fallback_weather = 22"
    by (subst eq) simp
  show ?thesis using a b c d h by simp
qed

section \<open>Estimated cost\<close>

lemma price_of_table: "price_of item = price_table (price_range (venue item))"
  by (simp add: price_of_def price_map_def price_table_def)

lemma create_day_plan_Success:
  assumes "create_day_plan env request db = (Success plan, db')"
  shows "\<exists>venues items. find_venues env db = Inr venues
      \<and> generate_itinerary (env_library env) request
            (get_current_weather (env_library env) (env_weather env)) venues (env_ai env)
          = Inr items
      \<and> items \<noteq> []
      \<and> itinerary plan = items
      \<and> estimated_cost plan = compute_estimated_cost items
      \<and> insert_one env plan db = Inr db'"
  using assms
  by (auto simp: create_day_plan_def plan_body_def and_then_def Let_def
           split: sum.splits if_splits prod.splits)

text \<open>
  Claim C6. The estimated cost of every itinerary is the sum over its items of the
  price table of the specification (free 0, \<^verbatim>\<open>$\<close> 25, \<^verbatim>\<open>$$\<close> 50, \<^verbatim>\<open>$$$\<close> 100, \<^verbatim>\<open>$$$$\<close>
  150, any other tier 0); an itinerary of one \<^verbatim>\<open>$$\<close> venue and one \<^verbatim>\<open>$\<close> venue costs
  75; two itineraries with the same price tiers cost the same; and the plan that plan
  creation returns carries this cost of its itinerary.
\<close>

theorem estimated_cost_is_price_table_sum:
  "compute_estimated_cost items = sum_list (map (\<lambda>it. price_table (price_range (venue it))) items)
   \<and> (price_range (venue a) = ''$$'' \<and> price_range (venue b) = ''$'' \<longrightarrow>
        compute_estimated_cost [a, b] = 75)
   \<and> (map (\<lambda>it. price_range (venue it)) items = map (\<lambda>it. price_range (venue it)) items' \<longrightarrow>
        compute_estimated_cost items = compute_estimated_cost items')
   \<and> (create_day_plan env request db = (Success plan, db') \<longrightarrow>
        estimated_cost plan = compute_estimated_cost (itinerary plan))"
proof -
  have sum: "\<And>xs. compute_estimated_cost xs
      = sum_list (map (\<lambda>it. price_table (price_range (venue it))) xs)"
  proof -
    fix xs
    have "price_of = (\<lambda>it. price_table (price_range (venue it)))"
      by (rule ext) (rule price_of_table)
    then show "compute_estimated_cost xs
      = sum_list (map (\<lambda>it. price_table (price_range (venue it))) xs)"
      by (simp add: compute_estimated_cost_def)
  qed
  have ex: "price_range (venue a) = ''$$'' \<and> price_range (venue b) = ''$'' \<longrightarrow>
        compute_estimated_cost [a, b] = 75"
    by (simp add: sum price_table_def)
  have dep: "map (\<lambda>it. price_range (venue it)) items = map (\<lambda>it. price_range (venue it)) items' \<longrightarrow>
        compute_estimated_cost items = compute_estimated_cost items'"
  proof
    assume eq: "map (\<lambda>it. price_range (venue it)) items = map (\<lambda>it. price_range (venue it)) items'"
    have "map (\<lambda>it. price_table (price_range (venue it))) items
        = map price_table (map (\<lambda>it. price_range (venue it)) items)" by simp
    also have "\<dots> = map price_table (map (\<lambda>it. price_range (venue it)) items')"
      using eq by simp
    also have "\<dots> = map (\<lambda>it. price_table (price_range (venue it))) items'" by simp
    finally show "compute_estimated_cost items = compute_estimated_cost items'"
      by (simp add: sum)
  qed
  have plan: "create_day_plan env request db = (Success plan, db') \<longrightarrow>
        estimated_cost plan = compute_estimated_cost (itinerary plan)"
    using create_day_plan_Success by metis
  show ?thesis using sum ex dep plan by blast
qed

theorem estimated_cost_is_price_table_sum_witness:
  "price_range (venue (sample_itinerary ! 1)) = ''$$''
   \<and> price_range (venue (sample_itinerary ! 0)) = ''$''
   \<and> compute_estimated_cost [sample_itinerary ! 1, sample_itinerary ! 0] = 75
   \<and> compute_estimated_cost sample_itinerary = 25 + 50"
proof -
  have a: "price_range (venue (sample_itinerary ! 1)) = ''$$''"
    and b: "price_range (venue (sample_itinerary ! 0)) = ''$''"
    by (simp_all add: sample_itinerary_def coffee_corner_def central_park_def)
  note t = estimated_cost_is_price_table_sum
    [of sample_itinerary "sample_itinerary ! 1" "sample_itinerary ! 0" sample_itinerary]
  have c: "compute_estimated_cost [sample_itinerary ! 1, sample_itinerary ! 0] = 75"
    using t a b by blast
  have "compute_estimated_cost sample_itinerary
      = sum_list (map (\<lambda>it. price_table (price_range (venue it))) sample_itinerary)"
    using t by blast
  then have d: "compute_estimated_cost sample_itinerary = 25 + 50"
    by (simp add: sample_itinerary_def coffee_corner_def central_park_def price_table_def)
  show ?thesis using a b c d by simp
qed

section \<open>Matching proposed stops\<close>

lemma venue_match_find:
  assumes item: "subscript item ''venue_name'' = Inr (JStr s)"
  shows "\<forall>v \<in> set venues. d_name v \<noteq> None \<Longrightarrow>
     venue_match lib venues item
       = Inr (find (\<lambda>v. sublist (str_lower lib (the (d_name v))) (str_lower lib s)) venues)"
proof (induction venues)
  case Nil
  show ?case by simp
next
  case (Cons v vs)
  from Cons.prems obtain n where n: "d_name v = Some n" by auto
  have rest: "venue_match lib vs item
      = Inr (find (\<lambda>v. sublist (str_lower lib (the (d_name v))) (str_lower lib s)) vs)"
    using Cons by simp
  show ?case using n item rest by (simp add: and_then_def)
qed

lemma venue_match_empty: "venue_match lib [] item = Inr None"
  by simp

lemma ai_loop_unmatched:
  "\<forall>item \<in> set items. venue_match lib venues item = Inr None \<Longrightarrow>
     ai_loop lib venues items acc = Inr acc"
  by (induction items arbitrary: acc) simp_all

lemma ai_loop_drop:
  "venue_match lib venues item = Inr None \<Longrightarrow>
     ai_loop lib venues (before @ item # after) acc = ai_loop lib venues (before @ after) acc"
proof (induction before arbitrary: acc)
  case Nil
  then show ?case by simp
next
  case (Cons x xs)
  then show ?case
    by (simp split: sum.splits option.splits)
qed

text \<open>A stop on which the match raises makes the whole loop raise.\<close>

lemma ai_loop_raises:
  "venue_match lib venues bad = Inl e \<Longrightarrow>
     \<exists>e'. ai_loop lib venues (before @ bad # after) acc = Inl e'"
proof (induction before arbitrary: acc)
  case Nil
  then show ?case by simp
next
  case (Cons x xs)
  then show ?case
    by (simp split: sum.splits option.splits)
qed

text \<open>The item appended for a matched stop whose times and notes are strings.\<close>

lemma itinerary_item_strings:
  assumes "Venue_of_doc m = Inr v"
    and "dict_get item ''start_time'' (JStr ''N/A'') = Inr (JStr st)"
    and "dict_get item ''end_time'' (JStr ''N/A'') = Inr (JStr et)"
    and "dict_get item ''notes'' (JStr []) = Inr (JStr nt)"
  shows "itinerary_item lib m item
     = Inr \<lparr>venue = v, start_time = st, end_time = et, item_notes = nt\<rparr>"
  using assms by (simp add: itinerary_item_def and_then_def)

lemma ai_loop_matched:
  assumes "venue_match lib venues item = Inr (Some m)"
    and "Venue_of_doc m = Inr v"
    and "dict_get item ''start_time'' (JStr ''N/A'') = Inr (JStr st)"
    and "dict_get item ''end_time'' (JStr ''N/A'') = Inr (JStr et)"
    and "dict_get item ''notes'' (JStr []) = Inr (JStr nt)"
  shows "ai_loop lib venues (item # rest) acc
     = ai_loop lib venues rest
         (acc @ [\<lparr>venue = v, start_time = st, end_time = et, item_notes = nt\<rparr>])"
  using assms(1) itinerary_item_strings[OF assms(2-5), of lib] by simp

text \<open>
  Claim C8, amended. For a proposed stop whose \<^verbatim>\<open>venue_name\<close> is present and is a
  string, and candidate venues that all have a name: the stop is matched exactly when
  the lower-cased name of some candidate is a substring of the lower-cased venue name
  of the stop, and the venue chosen is the first such candidate in candidate order.
  A matched stop whose venue validates and whose times and notes are strings (or are
  missing, the defaults being N/A, N/A and the empty string) adds to the itinerary the
  item of that venue with these times and notes; a stop with no match is dropped, the
  loop producing for the other stops what it produces without it; with no stops left
  the loop returns the items it has built. For any stop on which the match raises,
  instead, the loop raises whatever the other stops are: no item is kept.
\<close>

theorem venue_match_first_substring_match:
  assumes item: "subscript item ''venue_name'' = Inr (JStr s)"
    and named: "\<forall>v \<in> set venues. d_name v \<noteq> None"
  shows "venue_match lib venues item
           = Inr (find (\<lambda>v. sublist (str_lower lib (the (d_name v))) (str_lower lib s)) venues)
     \<and> ((\<exists>m. venue_match lib venues item = Inr (Some m))
          \<longleftrightarrow> (\<exists>v \<in> set venues. sublist (str_lower lib (the (d_name v))) (str_lower lib s)))
     \<and> (\<forall>m. venue_match lib venues item = Inr (Some m) \<longrightarrow>
          (\<exists>i < length venues. venues ! i = m
             \<and> sublist (str_lower lib (the (d_name m))) (str_lower lib s)
             \<and> (\<forall>j < i. \<not> sublist (str_lower lib (the (d_name (venues ! j))))
                               (str_lower lib s))))
     \<and> (venue_match lib venues item = Inr None \<longrightarrow>
          (\<forall>before after acc.
             ai_loop lib venues (before @ item # after) acc
               = ai_loop lib venues (before @ after) acc))
     \<and> (\<forall>m v st et nt.
          venue_match lib venues item = Inr (Some m)
          \<and> Venue_of_doc m = Inr v
          \<and> dict_get item ''start_time'' (JStr ''N/A'') = Inr (JStr st)
          \<and> dict_get item ''end_time'' (JStr ''N/A'') = Inr (JStr et)
          \<and> dict_get item ''notes'' (JStr []) = Inr (JStr nt) \<longrightarrow>
          (\<forall>rest acc.
             ai_loop lib venues (item # rest) acc
               = ai_loop lib venues rest
                   (acc @ [\<lparr>venue = v, start_time = st, end_time = et, item_notes = nt\<rparr>])))
     \<and> (\<forall>acc. ai_loop lib venues [] acc = Inr acc)
     \<and> (\<forall>bad e before after acc.
          venue_match lib venues bad = Inl e \<longrightarrow>
          (\<exists>e'. ai_loop lib venues (before @ bad # after) acc = Inl e'))"
proof -
  let ?P = "\<lambda>v. sublist (str_lower lib (the (d_name v))) (str_lower lib s)"
  have m: "venue_match lib venues item = Inr (find ?P venues)"
    using venue_match_find[OF item named] .
  have ex: "(\<exists>m. venue_match lib venues item = Inr (Some m)) \<longleftrightarrow> (\<exists>v \<in> set venues. ?P v)"
  proof
    assume "\<exists>m. venue_match lib venues item = Inr (Some m)"
    then obtain x where "find ?P venues = Some x" using m by auto
    then show "\<exists>v \<in> set venues. ?P v"
      unfolding find_Some_iff by (metis nth_mem)
  next
    assume "\<exists>v \<in> set venues. ?P v"
    then have "find ?P venues \<noteq> None" unfolding find_None_iff by blast
    then show "\<exists>m. venue_match lib venues item = Inr (Some m)" using m by auto
  qed
  have first: "\<forall>x. venue_match lib venues item = Inr (Some x) \<longrightarrow>
          (\<exists>i < length venues. venues ! i = x \<and> ?P x
             \<and> (\<forall>j < i. \<not> ?P (venues ! j)))"
  proof (intro allI impI)
    fix x
    assume "venue_match lib venues item = Inr (Some x)"
    then have "find ?P venues = Some x" using m by simp
    then show "\<exists>i < length venues. venues ! i = x \<and> ?P x \<and> (\<forall>j < i. \<not> ?P (venues ! j))"
      unfolding find_Some_iff by blast
  qed
  have drop: "venue_match lib venues item = Inr None \<longrightarrow>
          (\<forall>before after acc.
             ai_loop lib venues (before @ item # after) acc
               = ai_loop lib venues (before @ after) acc)"
    using ai_loop_drop by blast
  have matched: "\<forall>m v st et nt.
          venue_match lib venues item = Inr (Some m)
          \<and> Venue_of_doc m = Inr v
          \<and> dict_get item ''start_time'' (JStr ''N/A'') = Inr (JStr st)
          \<and> dict_get item ''end_time'' (JStr ''N/A'') = Inr (JStr et)
          \<and> dict_get item ''notes'' (JStr []) = Inr (JStr nt) \<longrightarrow>
          (\<forall>rest acc.
             ai_loop lib venues (item # rest) acc
               = ai_loop lib venues rest
                   (acc @ [\<lparr>venue = v, start_time = st, end_time = et, item_notes = nt\<rparr>]))"
    using ai_loop_matched by blast
  have base: "\<forall>acc. ai_loop lib venues [] acc = Inr acc"
    by simp
  have raises: "\<forall>bad e before after acc.
          venue_match lib venues bad = Inl e \<longrightarrow>
          (\<exists>e'. ai_loop lib venues (before @ bad # after) acc = Inl e')"
    using ai_loop_raises by blast
  show ?thesis
    by (intro conjI m ex first drop matched base raises)
qed

lemma sample_named: "\<forall>v \<in> set sample_venues. d_name v \<noteq> None"
  by (simp add: sample_venues_def SAMPLE_VENUES_def empty_doc_def)

lemmas match_defs =
  sample_venues_def SAMPLE_VENUES_def empty_doc_def plain_library_def ascii_lower_def
  ascii_lower_char_def sublist_code

theorem venue_match_first_substring_match_witness:
  "subscript coffee_stop ''venue_name'' = Inr (JStr ''Breakfast at the coffee corner'')
   \<and> venue_match plain_library sample_venues coffee_stop = Inr (Some (hd sample_venues))
   \<and> d_name (hd sample_venues) = Some ''The Coffee Corner''
   \<and> venue_match plain_library sample_venues museum_stop = Inr None
   \<and> ai_loop plain_library sample_venues ([] @ museum_stop # [coffee_stop]) []
       = ai_loop plain_library sample_venues ([] @ [coffee_stop]) []
   \<and> ai_loop plain_library sample_venues [museum_stop, coffee_stop] [] = Inr [coffee_item]"
proof -
  have c: "subscript coffee_stop ''venue_name'' = Inr (JStr ''Breakfast at the coffee corner'')"
    by (simp add: coffee_stop_def)
  have mu: "subscript museum_stop ''venue_name'' = Inr (JStr ''City Museum'')"
    by (simp add: museum_stop_def)
  note tc = venue_match_first_substring_match[OF c sample_named, where lib = plain_library]
  note tm = venue_match_first_substring_match[OF mu sample_named, where lib = plain_library]
  have f1: "find (\<lambda>v. sublist (str_lower plain_library (the (d_name v)))
                         (str_lower plain_library ''Breakfast at the coffee corner''))
       sample_venues = Some (hd sample_venues)"
    by (simp add: match_defs)
  have f2: "find (\<lambda>v. sublist (str_lower plain_library (the (d_name v)))
                         (str_lower plain_library ''City Museum''))
       sample_venues = None"
    by (simp add: match_defs)
  have a: "venue_match plain_library sample_venues coffee_stop = Inr (Some (hd sample_venues))"
    using tc f1 by simp
  have b: "venue_match plain_library sample_venues museum_stop = Inr None"
    using tm f2 by simp
  have n: "d_name (hd sample_venues) = Some ''The Coffee Corner''"
    by (simp add: sample_venues_def SAMPLE_VENUES_def empty_doc_def)
  have d: "ai_loop plain_library sample_venues ([] @ museum_stop # [coffee_stop]) []
       = ai_loop plain_library sample_venues ([] @ [coffee_stop]) []"
    using tm b by blast
  have v: "Venue_of_doc (hd sample_venues) = Inr coffee_corner"
    by (simp add: sample_venues_def SAMPLE_VENUES_def empty_doc_def Venue_of_doc_def
        Location_of_doc_def coffee_corner_def)
  have st: "dict_get coffee_stop ''start_time'' (JStr ''N/A'') = Inr (JStr ''08:00'')"
    and et: "dict_get coffee_stop ''end_time'' (JStr ''N/A'') = Inr (JStr ''08:45'')"
    and nt: "dict_get coffee_stop ''notes'' (JStr []) = Inr (JStr [])"
    by (simp_all add: coffee_stop_def)
  have step: "ai_loop plain_library sample_venues (coffee_stop # []) []
       = ai_loop plain_library sample_venues []
           ([] @ [\<lparr>venue = coffee_corner, start_time = ''08:00'', end_time = ''08:45'',
                   item_notes = []\<rparr>])"
    using tc a v st et nt by blast
  have fin: "ai_loop plain_library sample_venues []
           ([] @ [\<lparr>venue = coffee_corner, start_time = ''08:00'', end_time = ''08:45'',
                   item_notes = []\<rparr>])
       = Inr ([] @ [\<lparr>venue = coffee_corner, start_time = ''08:00'', end_time = ''08:45'',
                   item_notes = []\<rparr>])"
    using tc by blast
  have all: "ai_loop plain_library sample_venues [museum_stop, coffee_stop] [] = Inr [coffee_item]"
    using d step fin by (simp add: coffee_item_def)
  show ?thesis
    by (intro conjI c a n b d all)
qed

text \<open>
  A stop without \<^verbatim>\<open>venue_name\<close>: alone, the coffee stop gives its item; followed by the
  nameless stop, line 160 raises \<^verbatim>\<open>KeyError\<close>, the item is discarded and the planner
  returns the fallback itinerary.
\<close>

theorem ai_loop_nameless_stop_counterexample:
  "ai_loop plain_library sample_venues [coffee_stop] [] = Inr [coffee_item]
   \<and> subscript nameless_stop ''venue_name'' = Inl (KeyError ''venue_name'')
   \<and> ai_loop plain_library sample_venues [coffee_stop, nameless_stop] []
       = Inl (KeyError ''venue_name'')
   \<and> generate_itinerary plain_library example_request sunny sample_venues
        (Inr nameless_response)
       = Inr sample_itinerary"
proof -
  have 1: "ai_loop plain_library sample_venues [coffee_stop] [] = Inr [coffee_item]"
    by (simp add: match_defs coffee_stop_def coffee_item_def coffee_corner_def and_then_def
        itinerary_item_def Venue_of_doc_def Location_of_doc_def)
  have 2: "subscript nameless_stop ''venue_name'' = Inl (KeyError ''venue_name'')"
    by (simp add: nameless_stop_def)
  have 3: "ai_loop plain_library sample_venues [coffee_stop, nameless_stop] []
       = Inl (KeyError ''venue_name'')"
    by (simp add: match_defs coffee_stop_def nameless_stop_def coffee_corner_def and_then_def
        itinerary_item_def Venue_of_doc_def Location_of_doc_def)
  have "ai_itinerary plain_library example_request sample_venues (Inr nameless_response)
       = Inl (KeyError ''venue_name'')"
    using 3 by (simp add: ai_itinerary_def nameless_response_def and_then_def
        venue_info_line_def sample_venues_def SAMPLE_VENUES_def empty_doc_def)
  then have 4: "generate_itinerary plain_library example_request sunny sample_venues
        (Inr nameless_response) = Inr sample_itinerary"
    using sample_fallback by (simp add: generate_itinerary_def)
  show ?thesis by (intro conjI 1 2 3 4)
qed

section \<open>The generative path and the fallback\<close>

lemma generate_itinerary_raises:
  "ai_itinerary lib request venues ai = Inl e \<Longrightarrow>
     generate_itinerary lib request weather_now venues ai
       = fallback_planning request weather_now venues"
  by (simp add: generate_itinerary_def)

lemma generate_itinerary_returns:
  "ai_itinerary lib request venues ai = Inr items \<Longrightarrow>
     generate_itinerary lib request weather_now venues ai = Inr items"
  by (simp add: generate_itinerary_def)

lemma ai_itinerary_call_fails: "\<exists>e'. ai_itinerary lib request venues (Inl e) = Inl e'"
  by (cases "venue_info (take 15 venues)") (simp_all add: ai_itinerary_def and_then_def)

text \<open>
  Claim C1, amended. The planner's result is the fallback strategy's result exactly when
  the generative path raises: when the call to the language model or the parsing of
  its answer raises (network error, malformed response, parse error), and whenever
  anything else in the \<^verbatim>\<open>try\<close> block raises. When the generative path returns, its
  items are the result; in particular, when the response is parsed and none of its
  proposed stops matches a candidate venue, the result is the empty itinerary and the
  fallback strategy is not run.
\<close>

theorem generate_itinerary_fallback_on_exception:
  "generate_itinerary lib request weather_now venues (Inl e)
      = fallback_planning request weather_now venues
   \<and> (\<forall>e'. ai_itinerary lib request venues ai = Inl e' \<longrightarrow>
        generate_itinerary lib request weather_now venues ai
          = fallback_planning request weather_now venues)
   \<and> (\<forall>items. ai_itinerary lib request venues ai = Inr items \<longrightarrow>
        generate_itinerary lib request weather_now venues ai = Inr items)
   \<and> (\<forall>info stops proposed.
        venue_info (take 15 venues) = Inr info
        \<and> dict_get ai_data ''itinerary'' (JArr []) = Inr stops
        \<and> py_iter stops = Inr proposed
        \<and> (\<forall>item \<in> set proposed. venue_match lib venues item = Inr None) \<longrightarrow>
        generate_itinerary lib request weather_now venues (Inr ai_data) = Inr [])"
proof -
  have 1: "generate_itinerary lib request weather_now venues (Inl e)
      = fallback_planning request weather_now venues"
    using ai_itinerary_call_fails generate_itinerary_raises by metis
  have 2: "\<forall>e'. ai_itinerary lib request venues ai = Inl e' \<longrightarrow>
        generate_itinerary lib request weather_now venues ai
          = fallback_planning request weather_now venues"
    by (simp add: generate_itinerary_raises)
  have 3: "\<forall>items. ai_itinerary lib request venues ai = Inr items \<longrightarrow>
        generate_itinerary lib request weather_now venues ai = Inr items"
    by (simp add: generate_itinerary_returns)
  have 4: "\<forall>info stops proposed.
        venue_info (take 15 venues) = Inr info
        \<and> dict_get ai_data ''itinerary'' (JArr []) = Inr stops
        \<and> py_iter stops = Inr proposed
        \<and> (\<forall>item \<in> set proposed. venue_match lib venues item = Inr None) \<longrightarrow>
        generate_itinerary lib request weather_now venues (Inr ai_data) = Inr []"
  proof (intro allI impI, elim conjE)
    fix info stops proposed
    assume "venue_info (take 15 venues) = Inr info"
      "dict_get ai_data ''itinerary'' (JArr []) = Inr stops"
      "py_iter stops = Inr proposed"
      "\<forall>item \<in> set proposed. venue_match lib venues item = Inr None"
    then have "ai_itinerary lib request venues (Inr ai_data) = Inr []"
      by (simp add: ai_itinerary_def and_then_def ai_loop_unmatched)
    then show "generate_itinerary lib request weather_now venues (Inr ai_data) = Inr []"
      by (rule generate_itinerary_returns)
  qed
  show ?thesis using 1 2 3 4 by blast
qed

lemma museum_zero_matches:
  "generate_itinerary plain_library example_request sunny sample_venues (Inr museum_response)
     = Inr []"
  by (simp add: generate_itinerary_def ai_itinerary_def and_then_def venue_info_line_def
      museum_response_def match_defs)

theorem generate_itinerary_fallback_on_exception_witness:
  "generate_itinerary plain_library example_request sunny sample_venues (Inl APIError)
      = Inr sample_itinerary
   \<and> generate_itinerary plain_library example_request sunny sample_venues
        (Inl JSONDecodeError)
      = fallback_planning example_request sunny sample_venues"
proof -
  note t1 = generate_itinerary_fallback_on_exception
    [of plain_library example_request sunny sample_venues APIError]
  note t2 = generate_itinerary_fallback_on_exception
    [of plain_library example_request sunny sample_venues JSONDecodeError]
  have a: "generate_itinerary plain_library example_request sunny sample_venues (Inl APIError)
      = fallback_planning example_request sunny sample_venues"
    using t1 by blast
  have b: "generate_itinerary plain_library example_request sunny sample_venues
        (Inl JSONDecodeError)
      = fallback_planning example_request sunny sample_venues"
    using t2 by blast
  show ?thesis using a b sample_fallback by simp
qed

theorem generate_itinerary_zero_matches_counterexample:
  "generate_itinerary plain_library example_request sunny sample_venues (Inr museum_response)
     = Inr []
   \<and> fallback_planning example_request sunny sample_venues = Inr sample_itinerary
   \<and> sample_itinerary \<noteq> []
   \<and> generate_itinerary plain_library example_request sunny sample_venues
        (Inr museum_response)
      \<noteq> fallback_planning example_request sunny sample_venues"
proof -
  have ne: "sample_itinerary \<noteq> []" by (simp add: sample_itinerary_def)
  show ?thesis using museum_zero_matches sample_fallback ne by simp
qed

section \<open>Empty itineraries\<close>

lemma fallback_planning_empty: "fallback_planning request weather_now [] = Inr []"
  by (simp add: fallback_planning_def sorted_by_rating_def sorted_reverse_def)

lemma ai_itinerary_no_venues:
  "ai_itinerary lib request [] ai = Inr items \<Longrightarrow> items = []"
  by (auto simp: ai_itinerary_def and_then_def ai_loop_unmatched split: sum.splits)

lemma generate_itinerary_no_venues:
  "generate_itinerary lib request weather_now [] ai = Inr []"
proof (cases "ai_itinerary lib request [] ai")
  case (Inl e)
  then show ?thesis by (simp add: generate_itinerary_def fallback_planning_empty)
next
  case (Inr items)
  then show ?thesis using ai_itinerary_no_venues[OF Inr] by (simp add: generate_itinerary_def)
qed

lemma create_day_plan_empty_itinerary:
  assumes "find_venues env db = Inr venues"
    and "generate_itinerary (env_library env) request
           (get_current_weather (env_library env) (env_weather env)) venues (env_ai env)
         = Inr []"
  shows "create_day_plan env request db
     = (Failure 500 (HTTPException 500 ''Failed to generate itinerary.''), db)"
  using assms by (simp add: create_day_plan_def plan_body_def and_then_def)

text \<open>
  Claim C5. For an empty venue list the fallback strategy returns the empty sequence.
  Plan creation over an empty itinerary answers with HTTP status 500 and leaves the
  datastore as it was; this is what happens whenever the venue collection is empty.
  A plan that is returned never has an empty itinerary, and every failure has status
  500 and persists nothing.
\<close>

theorem empty_itinerary_is_a_failure:
  "fallback_planning request weather_now [] = Inr []
   \<and> (\<forall>venues.
        find_venues env db = Inr venues
        \<and> generate_itinerary (env_library env) request
             (get_current_weather (env_library env) (env_weather env)) venues (env_ai env)
           = Inr [] \<longrightarrow>
        create_day_plan env request db
          = (Failure 500 (HTTPException 500 ''Failed to generate itinerary.''), db))
   \<and> (env_find env = None \<and> venues_collection db = [] \<longrightarrow>
        create_day_plan env request db
          = (Failure 500 (HTTPException 500 ''Failed to generate itinerary.''), db))
   \<and> (\<forall>plan db'. create_day_plan env request db = (Success plan, db') \<longrightarrow>
        itinerary plan \<noteq> [])
   \<and> (\<forall>status e. fst (create_day_plan env request db) = Failure status e \<longrightarrow>
        status = 500 \<and> snd (create_day_plan env request db) = db)"
proof -
  have 1: "fallback_planning request weather_now [] = Inr []"
    by (rule fallback_planning_empty)
  have 2: "\<forall>venues.
        find_venues env db = Inr venues
        \<and> generate_itinerary (env_library env) request
             (get_current_weather (env_library env) (env_weather env)) venues (env_ai env)
           = Inr [] \<longrightarrow>
        create_day_plan env request db
          = (Failure 500 (HTTPException 500 ''Failed to generate itinerary.''), db)"
    using create_day_plan_empty_itinerary by blast
  have 3: "env_find env = None \<and> venues_collection db = [] \<longrightarrow>
        create_day_plan env request db
          = (Failure 500 (HTTPException 500 ''Failed to generate itinerary.''), db)"
  proof
    assume a: "env_find env = None \<and> venues_collection db = []"
    then have f: "find_venues env db = Inr []" by (simp add: find_venues_def)
    show "create_day_plan env request db
          = (Failure 500 (HTTPException 500 ''Failed to generate itinerary.''), db)"
      by (rule create_day_plan_empty_itinerary[OF f generate_itinerary_no_venues])
  qed
  have 4: "\<forall>plan db'. create_day_plan env request db = (Success plan, db') \<longrightarrow>
        itinerary plan \<noteq> []"
    using create_day_plan_Success by metis
  have 5: "\<forall>status e. fst (create_day_plan env request db) = Failure status e \<longrightarrow>
        status = 500 \<and> snd (create_day_plan env request db) = db"
    by (auto simp: create_day_plan_def split: sum.splits prod.splits)
  show ?thesis using 1 2 3 4 5 by blast
qed

theorem empty_itinerary_is_a_failure_witness:
  "fallback_planning example_request sunny [] = Inr []
   \<and> env_find example_env = None
   \<and> venues_collection (example_db\<lparr>venues_collection := []\<rparr>) = []
   \<and> create_day_plan example_env example_request (example_db\<lparr>venues_collection := []\<rparr>)
       = (Failure 500 (HTTPException 500 ''Failed to generate itinerary.''),
          example_db\<lparr>venues_collection := []\<rparr>)"
proof -
  have a: "env_find example_env = None" by (simp add: example_env_def)
  have b: "venues_collection (example_db\<lparr>venues_collection := []\<rparr>) = []" by simp
  note t = empty_itinerary_is_a_failure
    [of example_request sunny example_env "example_db\<lparr>venues_collection := []\<rparr>"]
  have c: "fallback_planning example_request sunny [] = Inr []" using t by blast
  have d: "create_day_plan example_env example_request (example_db\<lparr>venues_collection := []\<rparr>)
       = (Failure 500 (HTTPException 500 ''Failed to generate itinerary.''),
          example_db\<lparr>venues_collection := []\<rparr>)"
    using t a b by blast
  show ?thesis using a b c d by blast
qed

section \<open>Seeding\<close>

text \<open>
  Claim C9. Seeding is idempotent: running it twice leaves the datastore in the state
  one run leaves it in; after a run the venue collection holds exactly the fixed list,
  whatever it held before, and the document count is the length of the fixed list
  (seven) after each run.
\<close>

theorem populate_database_idempotent:
  "populate_database (populate_database db) = populate_database db
   \<and> venues_collection (populate_database db) = OUR_VENUES
   \<and> count_documents (populate_database db) = length OUR_VENUES
   \<and> count_documents (populate_database (populate_database db)) = length OUR_VENUES
   \<and> length OUR_VENUES = 7
   \<and> populate_database (db\<lparr>venues_collection := prior\<rparr>) = populate_database db"
  by (simp add: populate_database_def create_index_def insert_many_def delete_many_def
      count_documents_def OUR_VENUES_def)

theorem populate_database_idempotent_witness:
  "populate_database (populate_database example_db) = populate_database example_db
   \<and> count_documents (populate_database example_db) = 7
   \<and> count_documents (populate_database (populate_database example_db)) = 7
   \<and> populate_database (example_db\<lparr>venues_collection := []\<rparr>) = populate_database example_db"
  using populate_database_idempotent[of example_db "[]"] by simp

end
